theory Spec2Isabelle
  imports Complex_Main
begin

section \<open>Ensemble: score timeline engine\<close>

text \<open>
  A shallow embedding of the computational core of Ensemble: the renderer helpers
  (\<^verbatim>\<open>renderer.js\<close>), the staff-position helpers of the note editor
  (\<^verbatim>\<open>editor.js\<close>), the beginner renderer, the playback engine and the delete
  route of \<^verbatim>\<open>server.js\<close>.

  JavaScript numbers are modelled as exact reals. The beat positions, beat counts and
  time-signature numerators that occur are small multiples of \<open>1/4\<close>, which IEEE
  doubles represent exactly; the tolerance \<open>0.001\<close> and the quotient \<open>60 / tempo\<close> are
  idealised. \<open>NaN\<close> is modelled as \<open>None\<close> where the source can produce it.
  JavaScript strings are modelled as \<open>string\<close>; \<open>null\<close> and \<open>undefined\<close> as \<open>None\<close>.
  The duration tables are object literals, so a lookup also finds the properties that
  every object inherits; what such a lookup yields is modelled as \<open>Inherited\<close>.
\<close>

subsection \<open>Pitch strings\<close>

definition is_letter :: "char \<Rightarrow> bool" where
  \<comment> \<open>the character class \<^verbatim>\<open>[A-G]\<close>\<close>
  "is_letter c = (c \<in> set ''ABCDEFG'')"

definition is_acc :: "char \<Rightarrow> bool" where
  \<comment> \<open>the alternation \<^verbatim>\<open>(#|b)\<close>\<close>
  "is_acc c = (c = CHR ''#'' \<or> c = CHR ''b'')"

definition digit_table :: "(char \<times> int) list" where
  "digit_table =
     [(CHR ''0'', 0), (CHR ''1'', 1), (CHR ''2'', 2), (CHR ''3'', 3), (CHR ''4'', 4),
      (CHR ''5'', 5), (CHR ''6'', 6), (CHR ''7'', 7), (CHR ''8'', 8), (CHR ''9'', 9)]"

definition parseInt_char :: "char \<Rightarrow> int option" where
  \<comment> \<open>\<^verbatim>\<open>parseInt\<close> of a one-character string; \<open>None\<close> is \<open>NaN\<close>\<close>
  "parseInt_char c = map_of digit_table c"

definition is_digit :: "char \<Rightarrow> bool" where
  \<comment> \<open>the character class \<^verbatim>\<open>\d\<close>\<close>
  "is_digit c = (parseInt_char c \<noteq> None)"

text \<open>
  The regular expression \<^verbatim>\<open>/^([A-G])(#|b)?(\d)$/\<close>: the three groups of a match, or
  \<open>None\<close> when the string does not match.
\<close>

fun match_pitch :: "string \<Rightarrow> (char \<times> char option \<times> char) option" where
  "match_pitch [n, d] = (if is_letter n \<and> is_digit d then Some (n, None, d) else None)"
| "match_pitch [n, a, d] =
     (if is_letter n \<and> is_acc a \<and> is_digit d then Some (n, Some a, d) else None)"
| "match_pitch _ = None"

definition toLowerCase_char :: "char \<Rightarrow> char" where
  "toLowerCase_char c =
     (let n = (of_char c :: nat) in if 65 \<le> n \<and> n \<le> 90 then char_of (n + 32) else c)"

definition pitchToVexKey :: "string \<Rightarrow> string" where
  "pitchToVexKey pitch =
     (case match_pitch pitch of
        None \<Rightarrow> ''b/4''
      | Some (l, a, d) \<Rightarrow> [toLowerCase_char l] @ ''/'' @ [d])"

text \<open>\<^verbatim>\<open>pitch.match(/^[A-G](#|b)?/)\<close>, then \<^verbatim>\<open>m && m[1] ? m[1] : ''\<close>.\<close>

fun pitchAccidental :: "string \<Rightarrow> string" where
  "pitchAccidental (l # a # rest) = (if is_letter l \<and> is_acc a then [a] else '''')"
| "pitchAccidental _ = ''''"

text \<open>\<^verbatim>\<open>pitch[0]\<close>; \<open>None\<close> is \<open>undefined\<close>, the value for the empty string.\<close>

fun pitchLetter :: "string \<Rightarrow> string option" where
  "pitchLetter [] = None"
| "pitchLetter (c # rest) = Some [c]"

subsection \<open>Key signatures\<close>

type_synonym key_map = "string \<rightharpoonup> string"

definition prop_name :: "string option \<Rightarrow> string" where
  \<comment> \<open>the property name a value is converted to in \<^verbatim>\<open>obj[value]\<close>\<close>
  "prop_name k = (case k of None \<Rightarrow> ''undefined'' | Some s \<Rightarrow> s)"

definition or_empty :: "string option \<Rightarrow> string" where
  \<comment> \<open>\<^verbatim>\<open>x || ''\<close> for a string or \<open>undefined\<close>\<close>
  "or_empty x = (case x of None \<Rightarrow> '''' | Some s \<Rightarrow> s)"

definition sharps :: "string list" where
  "sharps = [''F'', ''C'', ''G'', ''D'', ''A'', ''E'', ''B'']"

definition flats :: "string list" where
  "flats = [''B'', ''E'', ''A'', ''D'', ''G'', ''C'', ''F'']"

definition key_table :: "(string \<times> int) list" where
  "key_table =
     [(''C'', 0), (''G'', 1), (''D'', 2), (''A'', 3), (''E'', 4), (''B'', 5), (''F#'', 6),
      (''C#'', 7), (''F'', -1), (''Bb'', -2), (''Eb'', -3), (''Ab'', -4), (''Db'', -5),
      (''Gb'', -6), (''Cb'', -7)]"

definition getKeyAccidentals :: "string \<Rightarrow> key_map" where
  "getKeyAccidentals key =
     (let n = (case map_of key_table key of None \<Rightarrow> 0 | Some v \<Rightarrow> v);
          result = Map.empty;
          result = (if n > 0 then fold (\<lambda>i r. r(sharps ! i \<mapsto> ''#'')) [0..<nat n] result
                    else result);
          result = (if n < 0 then fold (\<lambda>i r. r(flats ! i \<mapsto> ''b'')) [0..<nat (- n)] result
                    else result)
      in result)"

definition displayAccidental :: "string \<Rightarrow> key_map \<Rightarrow> string option" where
  "displayAccidental pitch keyAccidentals =
     (let letter = pitchLetter pitch;
          acc = pitchAccidental pitch;
          keyAcc = or_empty (keyAccidentals (prop_name letter))
      in if acc = keyAcc then None
         else if acc = ''#'' then Some ''#''
         else if acc = ''b'' then Some ''b''
         else if acc = '''' \<and> keyAcc \<noteq> '''' then Some ''n''
         else None)"

subsection \<open>Staff positions in the editor\<close>

definition DIATONIC :: "string list" where
  "DIATONIC = [''C'', ''D'', ''E'', ''F'', ''G'', ''A'', ''B'']"

text \<open>The base note (index into \<open>DIATONIC\<close>, octave) at the top line of each clef.\<close>

definition CLEF_BASE :: "(string \<times> int \<times> int) list" where
  "CLEF_BASE = [(''treble'', (3, 5)), (''alto'', (4, 4)), (''bass'', (5, 3))]"

definition clef_base :: "string \<Rightarrow> int \<times> int" where
  \<comment> \<open>\<^verbatim>\<open>CLEF_BASE[clef] || CLEF_BASE.treble\<close>\<close>
  "clef_base clef = (case map_of CLEF_BASE clef of None \<Rightarrow> (3, 5) | Some b \<Rightarrow> b)"

definition js_round :: "real \<Rightarrow> int" where
  \<comment> \<open>\<^verbatim>\<open>Math.round\<close>: the nearest integer, a half rounds up\<close>
  "js_round x = \<lfloor>x + 1/2\<rfloor>"

definition js_rem :: "int \<Rightarrow> int \<Rightarrow> int" where
  \<comment> \<open>the operator \<^verbatim>\<open>%\<close> on integers with a positive divisor: the sign of the
      dividend\<close>
  "js_rem a b = (if a \<ge> 0 then a mod b else - ((- a) mod b))"

fun indexOf :: "'a list \<Rightarrow> 'a \<Rightarrow> int" where
  "indexOf [] x = - 1"
| "indexOf (y # ys) x = (if y = x then 0 else (let i = indexOf ys x in if i < 0 then - 1 else i + 1))"

fun show_nat :: "nat \<Rightarrow> string" where
  "show_nat n =
     (if n < 10 then [''0123456789'' ! n]
      else show_nat (n div 10) @ [''0123456789'' ! (n mod 10)])"

declare show_nat.simps [simp del]

definition show_int :: "int \<Rightarrow> string" where
  \<comment> \<open>an integer in a string concatenation\<close>
  "show_int i = (if i < 0 then ''-'' @ show_nat (nat (- i)) else show_nat (nat i))"

definition linePosToPitch :: "real \<Rightarrow> string \<Rightarrow> key_map \<Rightarrow> string" where
  "linePosToPitch linePos clef keyAccidentals =
     (let base = clef_base clef;
          steps = js_round (linePos * 2);
          absPos = fst base + snd base * 7 - steps;
          octave = absPos div 7;
          noteIdx = js_rem absPos 7;
          (noteIdx, octave) = (if noteIdx < 0 then (noteIdx + 7, octave - 1)
                               else (noteIdx, octave));
          letter = DIATONIC ! nat noteIdx;
          keyAcc = or_empty (keyAccidentals letter)
      in letter @ keyAcc @ show_int octave)"

text \<open>
  \<open>pitchToLinePos\<close>; the result \<open>None\<close> is \<open>NaN\<close>, which \<^verbatim>\<open>parseInt\<close> gives for a
  last character that is no digit.
\<close>

definition pitchToLinePos :: "string \<Rightarrow> string \<Rightarrow> real option" where
  "pitchToLinePos pitch clef =
     (case pitch of
        [] \<Rightarrow> Some 2
      | l # rest \<Rightarrow>
          if \<not> is_letter l then Some 2
          else
            (case parseInt_char (last pitch) of
               None \<Rightarrow> None
             | Some octave \<Rightarrow>
                 (let letter = [l];
                      noteIdx = indexOf DIATONIC letter;
                      base = clef_base clef;
                      pitchAbs = noteIdx + octave * 7;
                      baseAbs = fst base + snd base * 7
                  in Some (real_of_int (baseAbs - pitchAbs) / 2))))"

subsection \<open>Pitch to frequency\<close>

definition NOTE_SEMITONES :: "(char \<times> int) list" where
  "NOTE_SEMITONES =
     [(CHR ''C'', -9), (CHR ''D'', -7), (CHR ''E'', -5), (CHR ''F'', -4), (CHR ''G'', -2),
      (CHR ''A'', 0), (CHR ''B'', 2)]"

definition pitchToFreq :: "string \<Rightarrow> real" where
  "pitchToFreq pitch =
     (case match_pitch pitch of
        None \<Rightarrow> 440
      | Some (note, acc, oct) \<Rightarrow>
          (let semitones = the (map_of NOTE_SEMITONES note) + (the (parseInt_char oct) - 4) * 12;
               semitones = (if acc = Some (CHR ''#'') then semitones + 1 else semitones);
               semitones = (if acc = Some (CHR ''b'') then semitones - 1 else semitones)
           in 440 * 2 powr (real_of_int semitones / 12)))"

subsection \<open>Notes, score and durations\<close>

text \<open>
  A row of the \<^verbatim>\<open>notes\<close> table, as the server returns it and the client keeps it.
  \<open>n_session_id\<close> is a nullable column.
\<close>

record note_rec =
  n_id :: string
  n_instrument_id :: string
  n_pitch :: string
  n_measure :: int
  n_beat :: real
  n_duration :: string
  n_is_rest :: bool
  n_accidental :: "string option"
  n_dynamic :: string
  n_session_id :: "string option"

text \<open>The body of a \<^verbatim>\<open>POST /api/notes\<close> request (\<^verbatim>\<open>noteData\<close>).\<close>

record note_data =
  nd_instrument_id :: string
  nd_pitch :: string
  nd_measure :: int
  nd_beat :: real
  nd_duration :: string
  nd_is_rest :: bool
  nd_accidental :: "string option"
  nd_dynamic :: string
  nd_session_id :: "string option"

text \<open>
  The score row. \<open>sc_beats_num\<close> is the number that
  \<^verbatim>\<open>time_signature.split('/').map(Number)\<close> puts first, \<open>sc_beat_value\<close> the second.
\<close>

record score =
  sc_title :: string
  sc_key_signature :: string
  sc_beats_num :: real
  sc_beat_value :: real
  sc_tempo :: real
  sc_total_measures :: int

record score_data =
  sd_score :: score
  sd_notes :: "note_rec list"

definition DUR_TO_VEX :: "(string \<times> string) list" where
  "DUR_TO_VEX =
     [(''whole'', ''w''), (''half'', ''h''), (''quarter'', ''q''), (''eighth'', ''8''),
      (''sixteenth'', ''16'')]"

definition DUR_TO_BEATS :: "(string \<times> real) list" where
  "DUR_TO_BEATS =
     [(''whole'', 4), (''half'', 2), (''quarter'', 1), (''eighth'', 1/2), (''sixteenth'', 1/4)]"

definition REST_DURATIONS :: "(real \<times> string) list" where
  "REST_DURATIONS = [(4, ''w''), (2, ''h''), (1, ''q''), (1/2, ''8''), (1/4, ''16'')]"

text \<open>
  The names of the properties that an object literal inherits from
  \<^verbatim>\<open>Object.prototype\<close>. Each is a function or an object, hence truthy.
\<close>

definition object_prototype_keys :: "string list" where
  "object_prototype_keys =
     [''constructor'', ''__defineGetter__'', ''__defineSetter__'', ''hasOwnProperty'',
      ''__lookupGetter__'', ''__lookupSetter__'', ''isPrototypeOf'', ''propertyIsEnumerable'',
      ''toString'', ''valueOf'', ''__proto__'', ''toLocaleString'']"

text \<open>
  A value read from a duration table, or computed from one. \<open>Inherited\<close> is the function
  or object found under an inherited name, and whatever becomes of it: added to a number
  or a string it gives a string that is no numeral, and in a product, a difference or a
  comparison that string counts as \<open>NaN\<close>.
\<close>

datatype 'a js = Val 'a | Inherited

definition js_add :: "real js \<Rightarrow> real js \<Rightarrow> real js" where
  \<comment> \<open>the operator \<^verbatim>\<open>+\<close>\<close>
  "js_add x y = (case (x, y) of (Val a, Val b) \<Rightarrow> Val (a + b) | _ \<Rightarrow> Inherited)"

definition js_mul :: "real js \<Rightarrow> real \<Rightarrow> real js" where
  \<comment> \<open>the operator \<^verbatim>\<open>*\<close> with a number\<close>
  "js_mul x y = (case x of Val a \<Rightarrow> Val (a * y) | Inherited \<Rightarrow> Inherited)"

definition js_gt :: "real js \<Rightarrow> real \<Rightarrow> bool" where
  \<comment> \<open>the comparison \<^verbatim>\<open>x > y\<close> with a number on the right: false for \<open>NaN\<close>\<close>
  "js_gt x y = (case x of Val a \<Rightarrow> a > y | Inherited \<Rightarrow> False)"

definition beats_or :: "real \<Rightarrow> string \<Rightarrow> real js" where
  \<comment> \<open>\<^verbatim>\<open>DUR_TO_BEATS[duration] || dflt\<close>; no entry of the table is zero\<close>
  "beats_or dflt duration =
     (case map_of DUR_TO_BEATS duration of
        Some b \<Rightarrow> Val b
      | None \<Rightarrow> if duration \<in> set object_prototype_keys then Inherited else Val dflt)"

definition vex_or_q :: "string \<Rightarrow> string js" where
  \<comment> \<open>\<^verbatim>\<open>DUR_TO_VEX[duration] || 'q'\<close>\<close>
  "vex_or_q duration =
     (case map_of DUR_TO_VEX duration of
        Some v \<Rightarrow> Val v
      | None \<Rightarrow> if duration \<in> set object_prototype_keys then Inherited else Val ''q'')"

text \<open>
  The durations of the data model and their beat counts, as the specification lists
  them: whole 4, half 2, quarter 1, eighth 0.5, sixteenth 0.25. Any other duration
  counts as a quarter, the tolerant default of the specification.
\<close>

definition valid_duration :: "string \<Rightarrow> bool" where
  "valid_duration d =
     (d = ''whole'' \<or> d = ''half'' \<or> d = ''quarter'' \<or> d = ''eighth'' \<or> d = ''sixteenth'')"

definition duration_beats :: "string \<Rightarrow> real" where
  "duration_beats d =
     (if d = ''whole'' then 4 else if d = ''half'' then 2 else if d = ''quarter'' then 1
      else if d = ''eighth'' then 1/2 else if d = ''sixteenth'' then 1/4 else 1)"

text \<open>A concrete note of the first violin in measure 1, for the examples.\<close>

definition note_at :: "string \<Rightarrow> string \<Rightarrow> real \<Rightarrow> string \<Rightarrow> string \<Rightarrow> note_rec" where
  "note_at ident pitch beat duration session =
     \<lparr>n_id = ident, n_instrument_id = ''violin1'', n_pitch = pitch, n_measure = 1,
      n_beat = beat, n_duration = duration, n_is_rest = False, n_accidental = None,
      n_dynamic = ''mf'', n_session_id = Some session\<rparr>"

subsection \<open>The delete route of the server\<close>

datatype response = Json_success | Status_404 string

definition sql_eq :: "string option \<Rightarrow> string option \<Rightarrow> bool" where
  \<comment> \<open>the SQL comparison \<^verbatim>\<open>column = ?\<close> as a row filter: a \<^verbatim>\<open>NULL\<close> on either side
      selects nothing\<close>
  "sql_eq a b = (case (a, b) of (Some x, Some y) \<Rightarrow> x = y | _ \<Rightarrow> False)"

text \<open>
  \<^verbatim>\<open>DELETE /api/notes/:id\<close> on a table \<open>notes\<close>, with the session id of the request
  body (\<open>None\<close> when it is \<^verbatim>\<open>null\<close>): the statement
  \<^verbatim>\<open>DELETE FROM notes WHERE id = ? AND session_id = ?\<close> and the reply.
\<close>

definition delete_route :: "note_rec list \<Rightarrow> string \<Rightarrow> string option \<Rightarrow> note_rec list \<times> response" where
  "delete_route notes ident session_id =
     (let selected = (\<lambda>n. n_id n = ident \<and> sql_eq (n_session_id n) session_id);
          changes = length (filter selected notes);
          notes' = filter (\<lambda>n. \<not> selected n) notes
      in if changes > 0 then (notes', Json_success)
         else (notes', Status_404 ''Note not found or not owned by this session''))"

subsection \<open>Playback engine\<close>

record timbre =
  waveform :: string
  gain :: real
  attack :: real
  decay :: real
  sustain :: real
  release :: real
  harmonics :: "real list"
  vibratoRate :: real
  vibratoDepth :: real
  filterFreq :: real

definition violin1 :: timbre where
  "violin1 = \<lparr>waveform = ''sawtooth'', gain = 12/100, attack = 4/100, decay = 8/100,
     sustain = 7/10, release = 12/100, harmonics = [1, 5/10, 3/10], vibratoRate = 55/10,
     vibratoDepth = 3, filterFreq = 4000\<rparr>"

definition violin2 :: timbre where
  "violin2 = \<lparr>waveform = ''sawtooth'', gain = 1/10, attack = 5/100, decay = 8/100,
     sustain = 65/100, release = 12/100, harmonics = [1, 4/10, 25/100], vibratoRate = 52/10,
     vibratoDepth = 25/10, filterFreq = 3500\<rparr>"

definition viola :: timbre where
  "viola = \<lparr>waveform = ''sawtooth'', gain = 11/100, attack = 6/100, decay = 1/10,
     sustain = 6/10, release = 15/100, harmonics = [1, 5/10, 35/100, 15/100], vibratoRate = 5,
     vibratoDepth = 25/10, filterFreq = 2800\<rparr>"

definition cello :: timbre where
  "cello = \<lparr>waveform = ''sawtooth'', gain = 13/100, attack = 7/100, decay = 12/100,
     sustain = 6/10, release = 18/100, harmonics = [1, 6/10, 4/10, 2/10], vibratoRate = 45/10,
     vibratoDepth = 2, filterFreq = 2000\<rparr>"

definition contrabass :: timbre where
  "contrabass = \<lparr>waveform = ''sawtooth'', gain = 14/100, attack = 8/100, decay = 15/100,
     sustain = 55/100, release = 2/10, harmonics = [1, 7/10, 4/10, 2/10, 1/10], vibratoRate = 4,
     vibratoDepth = 15/10, filterFreq = 1200\<rparr>"

definition TIMBRES :: "(string \<times> timbre) list" where
  "TIMBRES =
     [(''violin1'', violin1), (''violin2'', violin2), (''viola'', viola), (''cello'', cello),
      (''contrabass'', contrabass)]"

text \<open>The calls on an \<^verbatim>\<open>AudioParam\<close>, in the order they are made.\<close>

datatype automation = SetValueAtTime real real | LinearRampToValueAtTime real real

text \<open>
  What one call of \<^verbatim>\<open>_scheduleNote\<close> sets up: the oscillators of the harmonics
  (frequency and gain each), the filter, the vibrato, the automation of the master gain
  and the start and stop times of the oscillators.
\<close>

record voice =
  v_oscillators :: "(real \<times> real) list"
  v_filter :: real
  v_vibrato :: "real \<times> real"
  v_envelope :: "automation list"
  v_start :: real
  v_stop :: real

definition timbre_of :: "string \<Rightarrow> timbre" where
  \<comment> \<open>\<^verbatim>\<open>TIMBRES[instrumentId] || TIMBRES.violin1\<close>\<close>
  "timbre_of instrumentId =
     (case map_of TIMBRES instrumentId of None \<Rightarrow> violin1 | Some t \<Rightarrow> t)"

definition scheduleNote :: "string \<Rightarrow> string \<Rightarrow> real \<Rightarrow> real \<Rightarrow> voice" where
  "scheduleNote instrumentId pitch startTime duration =
     (let timbre = timbre_of instrumentId;
          freq = pitchToFreq pitch;
          oscs = map (\<lambda>h. (freq * (real h + 1), harmonics timbre ! h * gain timbre))
                   [0..<length (harmonics timbre)];
          endTime = startTime + duration
      in \<lparr>v_oscillators = oscs,
          v_filter = filterFreq timbre,
          v_vibrato = (vibratoRate timbre, vibratoDepth timbre),
          v_envelope =
            [SetValueAtTime 0 startTime,
             LinearRampToValueAtTime 1 (startTime + attack timbre),
             LinearRampToValueAtTime (sustain timbre) (startTime + attack timbre + decay timbre),
             SetValueAtTime (sustain timbre) (endTime - release timbre),
             LinearRampToValueAtTime 0 endTime],
          v_start = startTime,
          v_stop = endTime + 5/100\<rparr>)"

text \<open>
  The arguments of one call of \<^verbatim>\<open>_scheduleNote\<close> made by \<^verbatim>\<open>play\<close>. The duration
  is a product with a beat count read from \<open>DUR_TO_BEATS\<close>.
\<close>

record sched_call =
  call_instrument :: string
  call_pitch :: string
  call_start :: real
  call_dur :: "real js"

text \<open>
  The engine. \<open>scheduled\<close> lists the calls of \<^verbatim>\<open>_scheduleNote\<close> made since the last
  \<^verbatim>\<open>stop()\<close>; each call stores its oscillators in \<^verbatim>\<open>scheduledNodes\<close>.
\<close>

record engine =
  playing :: bool
  startTime :: real
  startMeasure :: int
  scheduled :: "sched_call list"
  mutedInstruments :: "string set"
  soloInstrument :: "string option"
  totalDuration :: real





definition seed_score :: score where
  \<comment> \<open>the score row the server seeds: D major, 4/4, 100 beats per minute, 32 measures\<close>
  "seed_score = \<lparr>sc_title = ''Untitled No. 1'', sc_key_signature = ''D'', sc_beats_num = 4,
     sc_beat_value = 4, sc_tempo = 100, sc_total_measures = 32\<rparr>"

subsection \<open>Placing a note in the editor\<close>

text \<open>The requests a client sends to the store.\<close>

datatype api_call = AddNote note_data | DeleteNote string "string option"

record editor =
  ed_scoreData :: score_data
  ed_instrumentId :: string
  ed_measure :: int
  ed_selectedDuration :: string
  ed_selectedAccidental :: "string option"
  ed_restMode :: bool
  ed_dynamic :: string
  ed_sessionId :: string
  ed_placedNotes :: "note_rec list"
  ed_borderColor :: string

definition char_at :: "string \<Rightarrow> nat \<Rightarrow> string" where
  \<comment> \<open>\<^verbatim>\<open>s[i]\<close> as it enters a string concatenation\<close>
  "char_at s i = (if i < length s then [s ! i] else ''undefined'')"

definition truthy :: "string option \<Rightarrow> bool" where
  \<comment> \<open>a string, \<open>null\<close> or \<open>undefined\<close> in a condition: the empty string is falsy\<close>
  "truthy x = (case x of None \<Rightarrow> False | Some s \<Rightarrow> s \<noteq> [])"

definition used_beats :: "note_rec list \<Rightarrow> real js" where
  \<comment> \<open>\<^verbatim>\<open>notes.reduce((sum, n) => sum + (DUR_TO_BEATS[n.duration] || 0), 0)\<close>\<close>
  "used_beats ns = foldl (\<lambda>sum n. js_add sum (beats_or 0 (n_duration n))) (Val 0) ns"

text \<open>
  The notes of one instrument and measure, and the sum of their beat counts as the
  specification counts them.
\<close>

definition measure_notes :: "string \<Rightarrow> int \<Rightarrow> note_rec list \<Rightarrow> note_rec list" where
  "measure_notes instrument m ns =
     filter (\<lambda>n. n_instrument_id n = instrument \<and> n_measure n = m) ns"

definition beat_sum :: "note_rec list \<Rightarrow> real" where
  "beat_sum ns = sum_list (map (\<lambda>n. duration_beats (n_duration n)) ns)"

text \<open>
  \<^verbatim>\<open>_placeNote(pitch, beat)\<close>. \<open>addNote\<close> is the reply of the store to the request
  (\<open>None\<close> when \<^verbatim>\<open>API.addNote\<close> throws). The result is the editor after the call and
  the requests sent.
\<close>

definition placeNote ::
  "(note_data \<Rightarrow> note_rec option) \<Rightarrow> editor \<Rightarrow> string \<Rightarrow> real \<Rightarrow> editor \<times> api_call list" where
  "placeNote addNote ed pitch beat =
     (let beatsNum = sc_beats_num (sd_score (ed_scoreData ed));
          existingNotes = filter (\<lambda>n. n_instrument_id n = ed_instrumentId ed
                                      \<and> n_measure n = ed_measure ed) (sd_notes (ed_scoreData ed));
          usedBeats = used_beats existingNotes;
          newNoteBeats = beats_or 1 (ed_selectedDuration ed)
      in if js_gt (js_add usedBeats newNoteBeats) beatsNum
            \<or> js_gt (js_add (js_add (Val beat) newNoteBeats) (Val (- 1))) beatsNum
         then (ed\<lparr>ed_borderColor := ''#c44''\<rparr>, [])
         else
           (let letter = char_at pitch 0;
                octave = char_at pitch (length pitch - 1);
                finalPitch =
                  (if truthy (ed_selectedAccidental ed) \<and> \<not> ed_restMode ed then
                     (if ed_selectedAccidental ed = Some ''sharp'' then letter @ ''#'' @ octave
                      else if ed_selectedAccidental ed = Some ''flat'' then letter @ ''b'' @ octave
                      else if ed_selectedAccidental ed = Some ''natural'' then letter @ octave
                      else pitch)
                   else pitch);
                noteData = \<lparr>nd_instrument_id = ed_instrumentId ed, nd_pitch = finalPitch,
                   nd_measure = ed_measure ed, nd_beat = beat,
                   nd_duration = ed_selectedDuration ed, nd_is_rest = ed_restMode ed,
                   nd_accidental = (if truthy (ed_selectedAccidental ed)
                                    then ed_selectedAccidental ed else None),
                   nd_dynamic = ed_dynamic ed, nd_session_id = Some (ed_sessionId ed)\<rparr>
            in case addNote noteData of
                 None \<Rightarrow> (ed, [AddNote noteData])
               | Some saved \<Rightarrow>
                   (ed\<lparr>ed_placedNotes := ed_placedNotes ed @ [saved],
                       ed_scoreData := (ed_scoreData ed)
                         \<lparr>sd_notes := sd_notes (ed_scoreData ed) @ [saved]\<rparr>\<rparr>,
                    [AddNote noteData])))"

subsection \<open>Placing a note in the beginner view\<close>

definition BEGINNER_PITCHES :: "string list" where
  "BEGINNER_PITCHES = [''C5'', ''B4'', ''A4'', ''G4'', ''F4'', ''E4'', ''D4'', ''C4'']"

definition pitchToY :: "string \<Rightarrow> real \<Rightarrow> real \<Rightarrow> real" where
  "pitchToY pitch topY lineSpacing =
     (let table = [(''C5'', - 1), (''B4'', - (1/2)), (''A4'', 0), (''G4'', 1/2), (''F4'', 1),
                   (''E4'', 3/2), (''D4'', 2), (''C4'', 5/2)];
          pos = (case map_of table pitch of None \<Rightarrow> 1 | Some v \<Rightarrow> v)
      in topY + pos * lineSpacing * 2)"

text \<open>The nearest of the beginner pitches; \<open>None\<close> as the best distance is \<open>Infinity\<close>.\<close>

definition yToPitch :: "real \<Rightarrow> real \<Rightarrow> real \<Rightarrow> string" where
  "yToPitch y topY lineSpacing =
     fst (fold (\<lambda>p (best, bestDist).
                  let py = pitchToY p topY lineSpacing; d = \<bar>py - y\<bar>
                  in if (case bestDist of None \<Rightarrow> True | Some b \<Rightarrow> d < b) then (p, Some d)
                     else (best, bestDist))
            BEGINNER_PITCHES (BEGINNER_PITCHES ! 0, None))"

record layout =
  ly_leftMargin :: real
  ly_musicWidth :: real
  ly_topY :: real
  ly_lineSpacing :: real
  ly_beatWidth :: real
  ly_beatsNum :: real

record beginner =
  bg_scoreData :: score_data
  bg_currentInstrument :: string
  bg_currentMeasure :: int
  bg_sessionId :: "string option"
  bg_dragging :: bool
  bg_layout :: "layout option"

text \<open>
  A click: the id of the note block under the pointer if any, whether the target is a
  drag handle, and the pointer position relative to the container.
\<close>

record click =
  ck_note_group :: "string option"
  ck_drag_handle :: bool
  ck_mx :: real
  ck_my :: real

record pos =
  pos_mx :: real
  pos_my :: real
  pos_beat :: real
  pos_pitch :: string

definition getPos :: "beginner \<Rightarrow> click \<Rightarrow> pos option" where
  "getPos bg e =
     (case bg_layout bg of
        None \<Rightarrow> None
      | Some ly \<Rightarrow>
          (let relX = ck_mx e - ly_leftMargin ly;
               beat = max 1 (min (ly_beatsNum ly) (real_of_int \<lfloor>relX / ly_beatWidth ly\<rfloor> + 1));
               pitch = yToPitch (ck_my e) (ly_topY ly) (ly_lineSpacing ly)
           in Some \<lparr>pos_mx = ck_mx e, pos_my = ck_my e, pos_beat = beat, pos_pitch = pitch\<rparr>))"

fun splice_first :: "('a \<Rightarrow> bool) \<Rightarrow> 'a list \<Rightarrow> 'a list" where
  \<comment> \<open>\<^verbatim>\<open>findIndex\<close>, then \<^verbatim>\<open>splice(idx, 1)\<close> when an index was found\<close>
  "splice_first P [] = []"
| "splice_first P (x # xs) = (if P x then xs else x # splice_first P xs)"

definition deleteNote :: "beginner \<Rightarrow> string \<Rightarrow> beginner \<times> api_call list" where
  "deleteNote bg noteId =
     (case find (\<lambda>n. n_id n = noteId) (sd_notes (bg_scoreData bg)) of
        None \<Rightarrow> (bg, [])
      | Some note \<Rightarrow>
          (bg\<lparr>bg_scoreData := (bg_scoreData bg)
                \<lparr>sd_notes := splice_first (\<lambda>n. n_id n = noteId) (sd_notes (bg_scoreData bg))\<rparr>\<rparr>,
           [DeleteNote noteId (bg_sessionId bg)]))"

text \<open>
  \<^verbatim>\<open>_onClick(e)\<close> of the beginner renderer, with the reply of the store to an add
  request as for \<open>placeNote\<close>.
\<close>

definition onClick ::
  "(note_data \<Rightarrow> note_rec option) \<Rightarrow> beginner \<Rightarrow> click \<Rightarrow> beginner \<times> api_call list" where
  "onClick addNote bg e =
     (if bg_dragging bg then (bg, [])
      else if ck_note_group e \<noteq> None \<and> \<not> ck_drag_handle e
        then deleteNote bg (the (ck_note_group e))
      else
        (case getPos bg e of
           None \<Rightarrow> (bg, [])
         | Some pos \<Rightarrow>
             (let beatsNum = sc_beats_num (sd_score (bg_scoreData bg));
                  existing = filter (\<lambda>n. n_instrument_id n = bg_currentInstrument bg
                                         \<and> n_measure n = bg_currentMeasure bg)
                               (sd_notes (bg_scoreData bg));
                  usedBeats = used_beats existing
              in if js_gt (js_add usedBeats (Val 1)) beatsNum then (bg, [])
                 else if find (\<lambda>n. \<bar>n_beat n - pos_beat pos\<bar> < 1/100) existing \<noteq> None
                   then (bg, [])
                 else
                   (let noteData = \<lparr>nd_instrument_id = bg_currentInstrument bg,
                          nd_pitch = pos_pitch pos, nd_measure = bg_currentMeasure bg,
                          nd_beat = pos_beat pos, nd_duration = ''quarter'', nd_is_rest = False,
                          nd_accidental = None, nd_dynamic = ''mf'',
                          nd_session_id = bg_sessionId bg\<rparr>
                    in case addNote noteData of
                         None \<Rightarrow> (bg, [AddNote noteData])
                       | Some saved \<Rightarrow>
                           (bg\<lparr>bg_scoreData := (bg_scoreData bg)
                                 \<lparr>sd_notes := sd_notes (bg_scoreData bg) @ [saved]\<rparr>\<rparr>,
                            [AddNote noteData])))))"

definition draw_layout :: "real \<Rightarrow> real \<Rightarrow> layout" where
  \<comment> \<open>the layout \<^verbatim>\<open>_draw\<close> stores, for a container of the given client width\<close>
  "draw_layout clientWidth beatsNum =
     (let width = max clientWidth 600; leftMargin = 60; rightMargin = 20;
          musicWidth = width - leftMargin - rightMargin
      in \<lparr>ly_leftMargin = leftMargin, ly_musicWidth = musicWidth, ly_topY = 40,
          ly_lineSpacing = 16, ly_beatWidth = musicWidth / beatsNum, ly_beatsNum = beatsNum\<rparr>)"

text \<open>
  \<^verbatim>\<open>POST /api/notes\<close> as the clients see it: the saved row under a fresh id, or no row
  when the measure is out of range (status 400) or the instrument is not in the
  instruments table, which the server seeds and never changes (the foreign key makes
  the insert fail). An empty dynamic is stored as \<open>mf\<close>, an empty accidental as
  \<^verbatim>\<open>NULL\<close>.
\<close>

definition instrument_ids :: "string list" where
  "instrument_ids = [''violin1'', ''violin2'', ''viola'', ''cello'', ''contrabass'']"

definition post_route :: "score \<Rightarrow> string \<Rightarrow> note_data \<Rightarrow> note_rec option" where
  "post_route sc ident nd =
     (if nd_measure nd < 1 \<or> nd_measure nd > sc_total_measures sc then None
      else if nd_instrument_id nd \<notin> set instrument_ids then None
      else Some \<lparr>n_id = ident, n_instrument_id = nd_instrument_id nd, n_pitch = nd_pitch nd,
                 n_measure = nd_measure nd, n_beat = nd_beat nd, n_duration = nd_duration nd,
                 n_is_rest = nd_is_rest nd,
                 n_accidental = (if truthy (nd_accidental nd) then nd_accidental nd else None),
                 n_dynamic = (if nd_dynamic nd = [] then ''mf'' else nd_dynamic nd),
                 n_session_id = nd_session_id nd\<rparr>)"

text \<open>
  The editor and the beginner view of session \<open>s2\<close>, open on measure 1 of the first
  violin of the seed score holding the notes \<open>ns\<close>, for the examples.
\<close>

definition editor_on :: "note_rec list \<Rightarrow> string \<Rightarrow> editor" where
  "editor_on ns duration =
     \<lparr>ed_scoreData = \<lparr>sd_score = seed_score, sd_notes = ns\<rparr>, ed_instrumentId = ''violin1'',
      ed_measure = 1, ed_selectedDuration = duration, ed_selectedAccidental = None,
      ed_restMode = False, ed_dynamic = ''mf'', ed_sessionId = ''s2'', ed_placedNotes = [],
      ed_borderColor = []\<rparr>"

definition beginner_on :: "note_rec list \<Rightarrow> beginner" where
  "beginner_on ns =
     \<lparr>bg_scoreData = \<lparr>sd_score = seed_score, sd_notes = ns\<rparr>, bg_currentInstrument = ''violin1'',
      bg_currentMeasure = 1, bg_sessionId = Some ''s2'', bg_dragging = False,
      bg_layout = Some (draw_layout 600 4)\<rparr>"

text \<open>
  The beat span \<open>[beat, beat + beats)\<close> of one note meets that of another, with the
  beat counts of the specification.
\<close>

definition spans_overlap :: "real \<Rightarrow> real \<Rightarrow> note_rec \<Rightarrow> bool" where
  "spans_overlap beat beats n =
     (beat < n_beat n + duration_beats (n_duration n) \<and> n_beat n < beat + beats)"

subsection \<open>Completing a measure\<close>

text \<open>
  The arguments of a \<^verbatim>\<open>VF.StaveNote\<close> as the renderer builds it, with the
  accidental modifier added afterwards and the note id stored on it. The duration is
  read from \<open>DUR_TO_VEX\<close>, or is a code of \<open>REST_DURATIONS\<close>.
\<close>

record stave_note =
  sn_clef :: string
  sn_keys :: "string list"
  sn_duration :: "string js"
  sn_auto_stem :: bool
  sn_accidental :: "string option"
  sn_ensembleId :: "string option"

definition restPosition :: "string \<Rightarrow> string" where
  "restPosition clef =
     (if clef = ''treble'' then ''b/4''
      else if clef = ''alto'' then ''c/4''
      else if clef = ''bass'' then ''d/3''
      else ''b/4'')"

definition rest_note :: "string \<Rightarrow> string \<Rightarrow> stave_note" where
  \<comment> \<open>\<^verbatim>\<open>new VF.StaveNote({clef, keys: [restPosition(clef)], duration: durVex + 'r'})\<close>\<close>
  "rest_note clef durVex =
     \<lparr>sn_clef = clef, sn_keys = [restPosition clef], sn_duration = Val (durVex @ ''r''),
      sn_auto_stem = False, sn_accidental = None, sn_ensembleId = None\<rparr>"

text \<open>
  The inner \<^verbatim>\<open>while (rem >= durBeats - 0.001)\<close> of \<open>pushRests\<close>. It runs forever for
  a duration of at most \<open>0.001\<close> beats, so it is a partial function: \<open>None\<close> is a loop
  that does not end.
\<close>

partial_function (option) rest_while ::
  "real \<Rightarrow> string \<Rightarrow> string \<Rightarrow> stave_note list \<Rightarrow> real \<Rightarrow> (stave_note list \<times> real) option" where
  "rest_while durBeats durVex clef arr rem =
     (if rem \<ge> durBeats - 1/1000
      then rest_while durBeats durVex clef (arr @ [rest_note clef durVex]) (rem - durBeats)
      else Some (arr, rem))"

declare rest_while.simps [code]

text \<open>The outer \<^verbatim>\<open>for\<close> over the durations, with the array and \<open>rem\<close> passed on.\<close>

fun rest_for ::
  "(real \<times> string) list \<Rightarrow> string \<Rightarrow> stave_note list \<Rightarrow> real \<Rightarrow> (stave_note list \<times> real) option" where
  "rest_for [] clef arr rem = Some (arr, rem)"
| "rest_for ((durBeats, durVex) # ds) clef arr rem =
     (case rest_while durBeats durVex clef arr rem of
        None \<Rightarrow> None
      | Some (arr', rem') \<Rightarrow> rest_for ds clef arr' rem')"

text \<open>\<open>pushRests(arr, beats, clef)\<close>: the array after the call.\<close>

definition pushRests :: "stave_note list \<Rightarrow> real \<Rightarrow> string \<Rightarrow> stave_note list option" where
  "pushRests arr beats clef = map_option fst (rest_for REST_DURATIONS clef arr beats)"

text \<open>
  The body of the loop of \<open>buildMeasureNotes\<close> over the sorted notes. Once a beat count
  read under an inherited name has been added, the cursor is a string: the comparison
  that opens a gap is then false, and so the cursor stays one.
\<close>

fun measure_loop ::
  "string \<Rightarrow> key_map \<Rightarrow> note_rec list \<Rightarrow> stave_note list \<Rightarrow> real js
     \<Rightarrow> (stave_note list \<times> real js) option" where
  "measure_loop clef keyAccidentals [] vexNotes cursor = Some (vexNotes, cursor)"
| "measure_loop clef keyAccidentals (note # rest) vexNotes cursor =
     (case (case cursor of
              Val c \<Rightarrow>
                if n_beat note > c + 1/1000
                then map_option (\<lambda>arr. (arr, Val (n_beat note)))
                       (pushRests vexNotes (n_beat note - c) clef)
                else Some (vexNotes, cursor)
            | Inherited \<Rightarrow> Some (vexNotes, cursor)) of
        None \<Rightarrow> None
      | Some (vexNotes, cursor) \<Rightarrow>
          (let beats = beats_or 1 (n_duration note);
               vexDur = vex_or_q (n_duration note);
               sn = (if n_is_rest note
                     then (case vexDur of
                             Val v \<Rightarrow> rest_note clef v
                           | Inherited \<Rightarrow> (rest_note clef [])\<lparr>sn_duration := Inherited\<rparr>)
                     else \<lparr>sn_clef = clef, sn_keys = [pitchToVexKey (n_pitch note)],
                           sn_duration = vexDur, sn_auto_stem = True,
                           sn_accidental = displayAccidental (n_pitch note) keyAccidentals,
                           sn_ensembleId = Some (n_id note)\<rparr>)
           in measure_loop clef keyAccidentals rest (vexNotes @ [sn]) (js_add cursor beats)))"

text \<open>
  \<open>buildMeasureNotes\<close>. The sort of the source is stable and compares beats, as
  \<open>sort_key\<close> does. With a cursor that is a string, \<open>remaining\<close> is \<open>NaN\<close> and no
  trailing rest is pushed.
\<close>

definition buildMeasureNotes ::
  "note_rec list \<Rightarrow> string \<Rightarrow> key_map \<Rightarrow> real \<Rightarrow> stave_note list option" where
  "buildMeasureNotes ns clef keyAccidentals beatsPerMeasure =
     (let sorted = sort_key n_beat ns
      in case measure_loop clef keyAccidentals sorted [] (Val 1) of
           None \<Rightarrow> None
         | Some (vexNotes, Val cursor) \<Rightarrow>
             (let remaining = beatsPerMeasure - cursor + 1
              in if remaining > 1/1000 then pushRests vexNotes remaining clef
                 else Some vexNotes)
         | Some (vexNotes, Inherited) \<Rightarrow> Some vexNotes)"

text \<open>
  The beat count of an event: that of its duration code in \<open>REST_DURATIONS\<close>, the
  suffix \<open>r\<close> of a rest set aside; an event without a duration code counts nothing.
\<close>

definition strip_r :: "string \<Rightarrow> string" where
  "strip_r s = (if s \<noteq> [] \<and> last s = CHR ''r'' then butlast s else s)"

definition event_beats :: "stave_note \<Rightarrow> real" where
  "event_beats sn =
     (case sn_duration sn of
        Inherited \<Rightarrow> 0
      | Val code \<Rightarrow>
          (case map_of (map (\<lambda>(b, v). (v, b)) REST_DURATIONS) (strip_r code) of
             None \<Rightarrow> 0
           | Some b \<Rightarrow> b))"

definition is_rest_event :: "stave_note \<Rightarrow> bool" where
  "is_rest_event sn =
     (case sn_duration sn of
        Inherited \<Rightarrow> False
      | Val code \<Rightarrow> code \<noteq> [] \<and> last code = CHR ''r'')"

text \<open>
  The rests of a greedy fill: \<open>kw\<close> whole rests, then \<open>kh\<close> half rests, \<open>kq\<close> quarter
  rests, \<open>ke\<close> eighth rests and \<open>ks\<close> sixteenth rests, in this order.
\<close>

definition rests_of :: "string \<Rightarrow> nat \<Rightarrow> nat \<Rightarrow> nat \<Rightarrow> nat \<Rightarrow> nat \<Rightarrow> stave_note list" where
  "rests_of c kw kh kq ke ks =
     replicate kw (rest_note c ''w'') @ replicate kh (rest_note c ''h'')
     @ replicate kq (rest_note c ''q'') @ replicate ke (rest_note c ''8'')
     @ replicate ks (rest_note c ''16'')"

text \<open>The ids of the notes of a list that are not rests, as the renderer stores them.\<close>

definition note_ids :: "note_rec list \<Rightarrow> string option list" where
  "note_ids ns = map (\<lambda>n. Some (n_id n)) (filter (\<lambda>n. \<not> n_is_rest n) ns)"

text \<open>
  The conditions on the notes of one measure: each beat is \<open>1\<close> plus a multiple of a
  quarter of a beat, each span ends within the measure, and no two spans overlap, with
  the beat counts of the specification.
\<close>

definition on_grid :: "real \<Rightarrow> bool" where
  "on_grid x = (\<exists>k::nat. x = 1 + real k / 4)"

fun non_overlapping :: "note_rec list \<Rightarrow> bool" where
  "non_overlapping [] = True"
| "non_overlapping (n # ns) =
     ((\<forall>m\<in>set ns. \<not> spans_overlap (n_beat n) (duration_beats (n_duration n)) m)
      \<and> non_overlapping ns)"

section \<open>Verified properties\<close>

text \<open>The definitions that a concrete example unfolds.\<close>

lemmas ex_defs = editor_on_def beginner_on_def note_at_def seed_score_def post_route_def
  used_beats_def beats_or_def DUR_TO_BEATS_def draw_layout_def js_add_def js_mul_def js_gt_def
  instrument_ids_def truthy_def duration_beats_def measure_notes_def beat_sum_def
  valid_duration_def object_prototype_keys_def

subsection \<open>Displayed accidentals\<close>

lemma pitchAccidental_cases:
  "pitchAccidental p = [] \<or> pitchAccidental p = ''#'' \<or> pitchAccidental p = ''b''"
  by (cases p rule: pitchAccidental.cases) (auto simp: is_acc_def)

lemma D_major: "getKeyAccidentals ''D'' = [''F'' \<mapsto> ''#'', ''C'' \<mapsto> ''#'']"
  by (simp add: getKeyAccidentals_def key_table_def sharps_def upt_conv_Cons)

lemma displayAccidental_eq:
  "displayAccidental pitch km =
     (if pitchAccidental pitch = or_empty (km (prop_name (pitchLetter pitch))) then None
      else if pitchAccidental pitch = [] then Some ''n''
      else Some (pitchAccidental pitch))"
  using pitchAccidental_cases [of pitch] by (auto simp: displayAccidental_def Let_def)

lemma displayAccidental_D_major:
  "displayAccidental ''F4'' (getKeyAccidentals ''D'') = Some ''n''"
  "displayAccidental ''F#4'' (getKeyAccidentals ''D'') = None"
  "displayAccidental ''C#4'' (getKeyAccidentals ''D'') = None"
  "displayAccidental ''C4'' (getKeyAccidentals ''D'') = Some ''n''"
  by (simp_all add: displayAccidental_def D_major prop_name_def or_empty_def is_letter_def
      is_acc_def)

text \<open>
  Claim C3. For every pitch string and every key-signature map, \<open>displayAccidental\<close>
  returns \<open>null\<close> when the stored accidental of the pitch equals the accidental the key
  forces for its letter, \<open>'n'\<close> when the pitch has no accidental but the key forces one,
  and the pitch's own accidental (\<open>'#'\<close> or \<open>'b'\<close>) otherwise. In D major, \<open>F4\<close> and
  \<open>C4\<close> show a natural, \<open>F#4\<close> and \<open>C#4\<close> show nothing.
\<close>

theorem displayAccidental_rule:
  "displayAccidental pitch km =
     (if pitchAccidental pitch = or_empty (km (prop_name (pitchLetter pitch))) then None
      else if pitchAccidental pitch = [] then Some ''n''
      else Some (pitchAccidental pitch))
   \<and> pitchAccidental pitch \<in> {[], ''#'', ''b''}
   \<and> displayAccidental ''F4'' (getKeyAccidentals ''D'') = Some ''n''
   \<and> displayAccidental ''F#4'' (getKeyAccidentals ''D'') = None
   \<and> displayAccidental ''C#4'' (getKeyAccidentals ''D'') = None
   \<and> displayAccidental ''C4'' (getKeyAccidentals ''D'') = Some ''n''"
proof (intro conjI)
  show "displayAccidental pitch km =
     (if pitchAccidental pitch = or_empty (km (prop_name (pitchLetter pitch))) then None
      else if pitchAccidental pitch = [] then Some ''n''
      else Some (pitchAccidental pitch))"
    by (rule displayAccidental_eq)
  show "pitchAccidental pitch \<in> {[], ''#'', ''b''}"
    using pitchAccidental_cases [of pitch] by simp
qed (rule displayAccidental_D_major)+

theorem displayAccidental_rule_witness:
  "displayAccidental ''Bb3'' (getKeyAccidentals ''D'') = Some ''b''
   \<and> displayAccidental ''F#4'' (getKeyAccidentals ''D'') = None
   \<and> displayAccidental ''F4'' (getKeyAccidentals ''D'') = Some ''n''"
  using displayAccidental_rule [of "''Bb3''" "getKeyAccidentals ''D''"]
    displayAccidental_rule [of "''F#4''" "getKeyAccidentals ''D''"]
  by (simp add: D_major prop_name_def or_empty_def is_letter_def is_acc_def)

subsection \<open>Frequency of a malformed pitch\<close>

lemma is_digit_set: "is_digit d \<longleftrightarrow> d \<in> set ''0123456789''"
  by (simp add: is_digit_def parseInt_char_def digit_table_def)

lemma match_pitch_SomeD:
  "match_pitch pitch = Some (l, a, d) \<Longrightarrow>
     pitch = [l] @ (case a of None \<Rightarrow> [] | Some c \<Rightarrow> [c]) @ [d] \<and> is_letter l \<and> is_digit d
       \<and> (case a of None \<Rightarrow> True | Some c \<Rightarrow> is_acc c)"
  by (cases pitch rule: match_pitch.cases) (auto split: if_splits)

text \<open>
  Claim C10. \<open>pitchToFreq\<close> is total: on every string that is not a letter \<open>A\<close>--\<open>G\<close>,
  an optional \<open>#\<close> or \<open>b\<close> and one digit, it returns exactly 440, so a malformed pitch
  sounds as A440. The pattern is stated here independently of the matcher.
\<close>

theorem pitchToFreq_default:
  assumes "\<not> (\<exists>l a d. pitch = [l] @ a @ [d] \<and> l \<in> set ''ABCDEFG'' \<and> a \<in> {[], ''#'', ''b''}
                  \<and> d \<in> set ''0123456789'')"
  shows "pitchToFreq pitch = 440"
proof -
  have "match_pitch pitch = None"
  proof (rule ccontr)
    assume "match_pitch pitch \<noteq> None"
    then obtain l a d where m: "match_pitch pitch = Some (l, a, d)" by auto
    note h = match_pitch_SomeD [OF m]
    have 1: "l \<in> set ''ABCDEFG''" using h by (simp only: is_letter_def)
    have 2: "d \<in> set ''0123456789''" using h by (simp only: is_digit_set)
    have 3: "(case a of None \<Rightarrow> [] | Some c \<Rightarrow> [c]) \<in> {[], ''#'', ''b''}"
      using h by (cases a) (simp_all add: is_acc_def)
    from h 1 2 3 assms show False by blast
  qed
  then show ?thesis by (simp add: pitchToFreq_def)
qed

theorem pitchToFreq_default_witness:
  "pitchToFreq ''H4'' = 440 \<and> pitchToFreq ''A10'' = 440 \<and> pitchToFreq [] = 440"
proof -
  have "pitchToFreq ''H4'' = 440" by (rule pitchToFreq_default) simp
  moreover have "pitchToFreq ''A10'' = 440"
    by (rule pitchToFreq_default) (auto simp: Cons_eq_append_conv)
  moreover have "pitchToFreq [] = 440" by (rule pitchToFreq_default) simp
  ultimately show ?thesis by blast
qed

subsection \<open>Session-scoped deletion\<close>

lemma sql_eq_iff: "sql_eq a b \<longleftrightarrow> b \<noteq> None \<and> a = b"
  by (auto simp: sql_eq_def split: option.splits)

lemma filter_all: "(\<forall>x\<in>set xs. P x) \<Longrightarrow> filter P xs = xs"
  by (induction xs) auto

text \<open>
  Claim C9. The delete route removes a note exactly when the session id presented with
  the request equals the session id stored with the note (a \<^verbatim>\<open>NULL\<close> on either side
  never matches). Otherwise, whether the note is missing or belongs to another session,
  the table is unchanged and the reply is the one 404 message
  \<open>Note not found or not owned by this session\<close>.
\<close>

theorem delete_route_owner_only:
  assumes "delete_route notes ident session_id = (notes', resp)"
  shows "notes' = filter (\<lambda>n. \<not> (n_id n = ident \<and> session_id \<noteq> None \<and> n_session_id n = session_id)) notes
    \<and> (resp = Json_success \<longleftrightarrow>
         (\<exists>n\<in>set notes. n_id n = ident \<and> session_id \<noteq> None \<and> n_session_id n = session_id))
    \<and> (\<not> (\<exists>n\<in>set notes. n_id n = ident \<and> session_id \<noteq> None \<and> n_session_id n = session_id) \<longrightarrow>
           notes' = notes \<and> resp = Status_404 ''Note not found or not owned by this session'')"
proof -
  let ?own = "\<lambda>n. n_id n = ident \<and> session_id \<noteq> None \<and> n_session_id n = session_id"
  have sel: "(\<lambda>n. n_id n = ident \<and> sql_eq (n_session_id n) session_id) = ?own"
    by (auto simp: fun_eq_iff sql_eq_iff)
  have len: "0 < length (filter P notes) \<longleftrightarrow> (\<exists>n\<in>set notes. P n)" for P
    by (simp add: filter_empty_conv)
  from assms have n': "notes' = filter (\<lambda>n. \<not> ?own n) notes"
    unfolding delete_route_def Let_def sel by (auto split: if_splits)
  from assms have r: "resp = (if (\<exists>n\<in>set notes. ?own n) then Json_success
       else Status_404 ''Note not found or not owned by this session'')"
    unfolding delete_route_def Let_def sel len by (auto split: if_splits)
  have "notes' = notes" if "\<not> (\<exists>n\<in>set notes. ?own n)"
    unfolding n' using that by (intro filter_all) blast
  with n' r show ?thesis by auto
qed

theorem delete_route_owner_only_witness:
  "delete_route [note_at ''n1'' ''D5'' 1 ''half'' ''alice'', note_at ''n2'' ''A4'' 3 ''half'' ''bob'']
       ''n1'' (Some ''alice'')
     = ([note_at ''n2'' ''A4'' 3 ''half'' ''bob''], Json_success)
   \<and> delete_route [note_at ''n1'' ''D5'' 1 ''half'' ''alice'', note_at ''n2'' ''A4'' 3 ''half'' ''bob'']
       ''n1'' (Some ''bob'')
     = ([note_at ''n1'' ''D5'' 1 ''half'' ''alice'', note_at ''n2'' ''A4'' 3 ''half'' ''bob''],
        Status_404 ''Note not found or not owned by this session'')
   \<and> delete_route [note_at ''n1'' ''D5'' 1 ''half'' ''alice'', note_at ''n2'' ''A4'' 3 ''half'' ''bob'']
       ''n9'' (Some ''bob'')
     = ([note_at ''n1'' ''D5'' 1 ''half'' ''alice'', note_at ''n2'' ''A4'' 3 ''half'' ''bob''],
        Status_404 ''Note not found or not owned by this session'')"
proof -
  let ?db = "[note_at ''n1'' ''D5'' 1 ''half'' ''alice'', note_at ''n2'' ''A4'' 3 ''half'' ''bob'']"
  obtain a1 r1 where 1: "delete_route ?db ''n1'' (Some ''alice'') = (a1, r1)" by fastforce
  obtain a2 r2 where 2: "delete_route ?db ''n1'' (Some ''bob'') = (a2, r2)" by fastforce
  obtain a3 r3 where 3: "delete_route ?db ''n9'' (Some ''bob'') = (a3, r3)" by fastforce
  from delete_route_owner_only [OF 1] have "a1 = [note_at ''n2'' ''A4'' 3 ''half'' ''bob''] \<and> r1 = Json_success"
    by (simp add: note_at_def)
  moreover from delete_route_owner_only [OF 2]
  have "a2 = ?db \<and> r2 = Status_404 ''Note not found or not owned by this session''"
    by (simp add: note_at_def)
  moreover from delete_route_owner_only [OF 3]
  have "a3 = ?db \<and> r3 = Status_404 ''Note not found or not owned by this session''"
    by (simp add: note_at_def)
  ultimately show ?thesis using 1 2 3 by simp
qed

subsection \<open>Playback timing\<close>

lemma beats_or_1_val:
  "d \<notin> set object_prototype_keys \<Longrightarrow> beats_or 1 d = Val (duration_beats d)"
  by (simp add: beats_or_def duration_beats_def DUR_TO_BEATS_def)




subsection \<open>The gain envelope\<close>

lemma timbre_release_pos: "0 < release (timbre_of i)"
  by (simp add: timbre_of_def TIMBRES_def violin1_def violin2_def viola_def cello_def contrabass_def)

text \<open>
  Claim C7, as the code has it. For every instrument, pitch, start \<open>t0\<close> and sounding
  duration \<open>d\<close> the master gain is set to 0 at \<open>t0\<close>, ramps linearly to 1 at
  \<open>t0 + attack\<close>, ramps linearly to the sustain level at \<open>t0 + attack + decay\<close>, is set
  to the sustain level at \<open>t0 + d - release\<close> and ramps linearly to 0 at \<open>t0 + d\<close>,
  with the attack, decay and release of the timbre unscaled. Nothing is compressed:
  whenever \<open>attack + decay \<ge> d\<close> the hold point \<open>t0 + d - release\<close> lies before the end
  of the decay ramp.
\<close>

theorem envelope_not_compressed:
  "v_envelope (scheduleNote i p t0 d) =
      [SetValueAtTime 0 t0,
       LinearRampToValueAtTime 1 (t0 + attack (timbre_of i)),
       LinearRampToValueAtTime (sustain (timbre_of i))
         (t0 + attack (timbre_of i) + decay (timbre_of i)),
       SetValueAtTime (sustain (timbre_of i)) (t0 + d - release (timbre_of i)),
       LinearRampToValueAtTime 0 (t0 + d)]
   \<and> (d \<le> attack (timbre_of i) + decay (timbre_of i) \<longrightarrow>
        t0 + d - release (timbre_of i) < t0 + attack (timbre_of i) + decay (timbre_of i))"
  using timbre_release_pos [of i] by (simp add: scheduleNote_def Let_def)

theorem envelope_not_compressed_witness:
  "v_envelope (scheduleNote ''cello'' ''A3'' 2 (3/20)) =
      [SetValueAtTime 0 2, LinearRampToValueAtTime 1 (207/100),
       LinearRampToValueAtTime (3/5) (219/100), SetValueAtTime (3/5) (197/100),
       LinearRampToValueAtTime 0 (43/20)]
   \<and> (3/20 :: real) \<le> attack (timbre_of ''cello'') + decay (timbre_of ''cello'')
   \<and> (2 + 3/20 - release (timbre_of ''cello'') :: real)
       < 2 + attack (timbre_of ''cello'') + decay (timbre_of ''cello'')"
  using envelope_not_compressed [of "''cello''" "''A3''" 2 "3/20"]
  by (simp add: timbre_of_def TIMBRES_def cello_def)

text \<open>
  The claim as stated fails for a sixteenth note of the contrabass at 100 beats per
  minute (0.15 s): attack and decay keep their 0.08 s and 0.15 s, and the hold point
  is at \<open>-0.05\<close> s, before the note starts.
\<close>

theorem envelope_counterexample:
  "v_envelope (scheduleNote ''contrabass'' ''A4'' 0 (3/20)) =
     [SetValueAtTime 0 0, LinearRampToValueAtTime 1 (2/25),
      LinearRampToValueAtTime (11/20) (23/100), SetValueAtTime (11/20) (- (1/20)),
      LinearRampToValueAtTime 0 (3/20)]
   \<and> attack (timbre_of ''contrabass'') + decay (timbre_of ''contrabass'') \<ge> 3/20"
  by (simp add: scheduleNote_def Let_def timbre_of_def TIMBRES_def contrabass_def)

subsection \<open>Capacity of a measure\<close>




lemma duration_beats_pos: "0 < duration_beats d"
  by (simp add: duration_beats_def)





subsection \<open>Overlapping spans\<close>

lemma yToPitch_40: "yToPitch 40 40 16 = ''A4''"
  by (simp add: yToPitch_def BEGINNER_PITCHES_def pitchToY_def)

text \<open>
  Claim C5 asks that every client-side path rejects a note whose span overlaps that of
  a note already in the measure. Neither path does: with a half note at beat 1, a
  quarter note at beat 2 lies inside its span, yet the editor and the beginner view
  both send the add request and append the saved note.
\<close>

theorem overlap_accepted:
  "spans_overlap 2 (duration_beats ''quarter'') (note_at ''n1'' ''D5'' 1 ''half'' ''s1'')
   \<and> snd (placeNote (post_route seed_score ''n2'')
            (editor_on [note_at ''n1'' ''D5'' 1 ''half'' ''s1''] ''quarter'') ''A4'' 2)
       = [AddNote \<lparr>nd_instrument_id = ''violin1'', nd_pitch = ''A4'', nd_measure = 1, nd_beat = 2,
            nd_duration = ''quarter'', nd_is_rest = False, nd_accidental = None,
            nd_dynamic = ''mf'', nd_session_id = Some ''s2''\<rparr>]
   \<and> sd_notes (ed_scoreData (fst (placeNote (post_route seed_score ''n2'')
            (editor_on [note_at ''n1'' ''D5'' 1 ''half'' ''s1''] ''quarter'') ''A4'' 2)))
       = [note_at ''n1'' ''D5'' 1 ''half'' ''s1'', note_at ''n2'' ''A4'' 2 ''quarter'' ''s2'']
   \<and> snd (onClick (post_route seed_score ''n2'')
            (beginner_on [note_at ''n1'' ''D5'' 1 ''half'' ''s1''])
            \<lparr>ck_note_group = None, ck_drag_handle = False, ck_mx = 200, ck_my = 40\<rparr>)
       = [AddNote \<lparr>nd_instrument_id = ''violin1'', nd_pitch = ''A4'', nd_measure = 1, nd_beat = 2,
            nd_duration = ''quarter'', nd_is_rest = False, nd_accidental = None,
            nd_dynamic = ''mf'', nd_session_id = Some ''s2''\<rparr>]
   \<and> sd_notes (bg_scoreData (fst (onClick (post_route seed_score ''n2'')
            (beginner_on [note_at ''n1'' ''D5'' 1 ''half'' ''s1''])
            \<lparr>ck_note_group = None, ck_drag_handle = False, ck_mx = 200, ck_my = 40\<rparr>)))
       = [note_at ''n1'' ''D5'' 1 ''half'' ''s1'', note_at ''n2'' ''A4'' 2 ''quarter'' ''s2'']"
proof (intro conjI)
  show "spans_overlap 2 (duration_beats ''quarter'') (note_at ''n1'' ''D5'' 1 ''half'' ''s1'')"
    by (simp add: spans_overlap_def ex_defs)
  have p: "placeNote (post_route seed_score ''n2'')
            (editor_on [note_at ''n1'' ''D5'' 1 ''half'' ''s1''] ''quarter'') ''A4'' 2
     = ((editor_on [note_at ''n1'' ''D5'' 1 ''half'' ''s1''] ''quarter'')
          \<lparr>ed_placedNotes := [note_at ''n2'' ''A4'' 2 ''quarter'' ''s2''],
           ed_scoreData := \<lparr>sd_score = seed_score,
              sd_notes = [note_at ''n1'' ''D5'' 1 ''half'' ''s1'', note_at ''n2'' ''A4'' 2 ''quarter'' ''s2'']\<rparr>\<rparr>,
        [AddNote \<lparr>nd_instrument_id = ''violin1'', nd_pitch = ''A4'', nd_measure = 1, nd_beat = 2,
            nd_duration = ''quarter'', nd_is_rest = False, nd_accidental = None,
            nd_dynamic = ''mf'', nd_session_id = Some ''s2''\<rparr>])"
    by (simp add: placeNote_def Let_def truthy_def char_at_def ex_defs)
  show "snd (placeNote (post_route seed_score ''n2'')
            (editor_on [note_at ''n1'' ''D5'' 1 ''half'' ''s1''] ''quarter'') ''A4'' 2)
       = [AddNote \<lparr>nd_instrument_id = ''violin1'', nd_pitch = ''A4'', nd_measure = 1, nd_beat = 2,
            nd_duration = ''quarter'', nd_is_rest = False, nd_accidental = None,
            nd_dynamic = ''mf'', nd_session_id = Some ''s2''\<rparr>]"
    by (simp add: p)
  show "sd_notes (ed_scoreData (fst (placeNote (post_route seed_score ''n2'')
            (editor_on [note_at ''n1'' ''D5'' 1 ''half'' ''s1''] ''quarter'') ''A4'' 2)))
       = [note_at ''n1'' ''D5'' 1 ''half'' ''s1'', note_at ''n2'' ''A4'' 2 ''quarter'' ''s2'']"
    by (simp add: p)
  have g: "getPos (beginner_on [note_at ''n1'' ''D5'' 1 ''half'' ''s1''])
            \<lparr>ck_note_group = None, ck_drag_handle = False, ck_mx = 200, ck_my = 40\<rparr>
      = Some \<lparr>pos_mx = 200, pos_my = 40, pos_beat = 2, pos_pitch = ''A4''\<rparr>"
    by (simp add: getPos_def beginner_on_def draw_layout_def Let_def yToPitch_40)
  have q: "onClick (post_route seed_score ''n2'')
            (beginner_on [note_at ''n1'' ''D5'' 1 ''half'' ''s1''])
            \<lparr>ck_note_group = None, ck_drag_handle = False, ck_mx = 200, ck_my = 40\<rparr>
     = ((beginner_on [note_at ''n1'' ''D5'' 1 ''half'' ''s1''])
          \<lparr>bg_scoreData := \<lparr>sd_score = seed_score,
              sd_notes = [note_at ''n1'' ''D5'' 1 ''half'' ''s1'', note_at ''n2'' ''A4'' 2 ''quarter'' ''s2'']\<rparr>\<rparr>,
        [AddNote \<lparr>nd_instrument_id = ''violin1'', nd_pitch = ''A4'', nd_measure = 1, nd_beat = 2,
            nd_duration = ''quarter'', nd_is_rest = False, nd_accidental = None,
            nd_dynamic = ''mf'', nd_session_id = Some ''s2''\<rparr>])"
    unfolding onClick_def g by (simp add: Let_def ex_defs)
  show "snd (onClick (post_route seed_score ''n2'')
            (beginner_on [note_at ''n1'' ''D5'' 1 ''half'' ''s1''])
            \<lparr>ck_note_group = None, ck_drag_handle = False, ck_mx = 200, ck_my = 40\<rparr>)
       = [AddNote \<lparr>nd_instrument_id = ''violin1'', nd_pitch = ''A4'', nd_measure = 1, nd_beat = 2,
            nd_duration = ''quarter'', nd_is_rest = False, nd_accidental = None,
            nd_dynamic = ''mf'', nd_session_id = Some ''s2''\<rparr>]"
    by (simp add: q)
  show "sd_notes (bg_scoreData (fst (onClick (post_route seed_score ''n2'')
            (beginner_on [note_at ''n1'' ''D5'' 1 ''half'' ''s1''])
            \<lparr>ck_note_group = None, ck_drag_handle = False, ck_mx = 200, ck_my = 40\<rparr>)))
       = [note_at ''n1'' ''D5'' 1 ''half'' ''s1'', note_at ''n2'' ''A4'' 2 ''quarter'' ''s2'']"
    by (simp add: q)
qed

subsection \<open>Staff position round trip\<close>

lemma indexOf_DIATONIC:
  "is_letter l \<Longrightarrow> 0 \<le> indexOf DIATONIC [l] \<and> indexOf DIATONIC [l] < 7
     \<and> DIATONIC ! nat (indexOf DIATONIC [l]) = [l]"
  by (auto simp: is_letter_def DIATONIC_def)

lemma parseInt_digit:
  "is_digit d \<Longrightarrow> \<exists>v. parseInt_char d = Some v \<and> 0 \<le> v \<and> v \<le> 9 \<and> show_int v = [d]"
  by (auto simp: is_digit_set parseInt_char_def digit_table_def show_int_def show_nat.simps)

lemma js_round_half: "js_round (real_of_int z / 2 * 2) = z"
  by (simp add: js_round_def)


lemma pitchAccidental_match:
  "match_pitch p = Some (l, a, d) \<Longrightarrow> pitchAccidental p = (case a of None \<Rightarrow> [] | Some c \<Rightarrow> [c])"
  by (cases p rule: match_pitch.cases) (auto simp: is_digit_set is_acc_def split: if_splits)

text \<open>
  Claim C2, as the code has it. For every pitch string that is a letter, an optional
  accidental and one digit, and every clef (an unknown clef counts as treble),
  \<open>pitchToLinePos\<close> gives a position, and \<open>linePosToPitch\<close> at that position gives
  the letter, the accidental the key-signature map forces for the letter, and the
  octave. Hence the round trip returns the pitch exactly when the accidental of the
  pitch is the one the key forces for its letter.
\<close>

theorem position_round_trip:
  assumes "match_pitch p = Some (l, a, d)"
  shows "\<exists>linePos. pitchToLinePos p clef = Some linePos
           \<and> linePosToPitch linePos clef km = [l] @ or_empty (km [l]) @ [d]
           \<and> (linePosToPitch linePos clef km = p \<longleftrightarrow> pitchAccidental p = or_empty (km [l]))"
proof -
  note h = match_pitch_SomeD [OF assms]
  from h have p: "p = [l] @ (case a of None \<Rightarrow> [] | Some c \<Rightarrow> [c]) @ [d]" by simp
  from h have l: "is_letter l" and d: "is_digit d" by simp_all
  from parseInt_digit [OF d] obtain v where
    v: "parseInt_char d = Some v" "0 \<le> v" "v \<le> 9" "show_int v = [d]" by blast
  define i where "i = indexOf DIATONIC [l]"
  from indexOf_DIATONIC [OF l] have i: "0 \<le> i" "i < 7" "DIATONIC ! nat i = [l]"
    by (simp_all add: i_def)
  obtain bi bo where b: "clef_base clef = (bi, bo)" by fastforce
  have lastp: "last p = d" by (subst p) simp
  have pos: "pitchToLinePos p clef = Some (real_of_int (bi + bo * 7 - (i + v * 7)) / 2)"
    by (subst p) (simp add: pitchToLinePos_def l v(1) b i_def Let_def lastp [unfolded p, simplified])
  have dv: "(i + v * 7) div 7 = v" "js_rem (i + v * 7) 7 = i"
    using i v by (simp_all add: js_rem_def)
  have bk: "linePosToPitch (real_of_int (bi + bo * 7 - (i + v * 7)) / 2) clef km
      = [l] @ or_empty (km [l]) @ [d]"
  proof -
    have 1: "js_round (real_of_int (bi + bo * 7 - (i + v * 7)) / 2 * 2) = bi + bo * 7 - (i + v * 7)"
      by (rule js_round_half)
    have 2: "bi + bo * 7 - (bi + bo * 7 - (i + v * 7)) = i + v * 7" by simp
    show ?thesis
      unfolding linePosToPitch_def b Let_def fst_conv snd_conv 1 2 dv
      using i by (simp add: v(4))
  qed
  have "[l] @ or_empty (km [l]) @ [d] = p \<longleftrightarrow> pitchAccidental p = or_empty (km [l])"
    unfolding pitchAccidental_match [OF assms] by (subst p) auto
  with pos bk show ?thesis
    by (intro exI [of _ "real_of_int (bi + bo * 7 - (i + v * 7)) / 2"]) (simp only: simp_thms)
qed

theorem position_round_trip_witness:
  "\<exists>linePos. pitchToLinePos ''F#4'' ''treble'' = Some linePos
     \<and> linePosToPitch linePos ''treble'' (getKeyAccidentals ''D'') = ''F#4''"
  using position_round_trip [of "''F#4''" "CHR ''F''" "Some (CHR ''#'')" "CHR ''4''" "''treble''"
      "getKeyAccidentals ''D''"]
  by (simp add: is_letter_def is_acc_def is_digit_set D_major or_empty_def)

text \<open>
  The round trip as stated for every pitch fails in D major, the key of the seed score:
  \<open>F4\<close> comes back as \<open>F#4\<close> in the treble clef, and \<open>Bb4\<close> as \<open>B4\<close> in the alto
  clef.
\<close>

theorem position_round_trip_counterexample:
  "pitchToLinePos ''F4'' ''treble'' = Some (7/2)
   \<and> linePosToPitch (7/2) ''treble'' (getKeyAccidentals ''D'') = ''F#4''
   \<and> pitchToLinePos ''Bb4'' ''alto'' = Some (- 1)
   \<and> linePosToPitch (- 1) ''alto'' (getKeyAccidentals ''D'') = ''B4''"
  by (simp add: pitchToLinePos_def linePosToPitch_def is_letter_def parseInt_char_def
      digit_table_def DIATONIC_def clef_base_def CLEF_BASE_def js_round_def js_rem_def
      D_major or_empty_def show_int_def show_nat.simps Let_def)

subsection \<open>Greedy rest fill\<close>

lemma rest_while_bounded:
  assumes d: "1/1000 < d"
  shows "rem < real n * d \<Longrightarrow>
    \<exists>k. rest_while d v c arr rem = Some (arr @ replicate k (rest_note c v), rem - real k * d)
       \<and> rem - real k * d < d - 1/1000
       \<and> (0 < k \<longrightarrow> - (1/1000) \<le> rem - real k * d)"
proof (induction n arbitrary: arr rem)
  case 0
  then have "\<not> d - 1/1000 \<le> rem" using d by simp
  then have "rest_while d v c arr rem = Some (arr, rem)"
    by (subst rest_while.simps) simp
  with \<open>\<not> d - 1/1000 \<le> rem\<close> show ?case by (intro exI [of _ 0]) simp
next
  case (Suc n)
  show ?case
  proof (cases "d - 1/1000 \<le> rem")
    case False
    then have "rest_while d v c arr rem = Some (arr, rem)"
      by (subst rest_while.simps) simp
    with False show ?thesis by (intro exI [of _ 0]) simp
  next
    case True
    from Suc.prems have "rem - d < real n * d" by (simp add: algebra_simps)
    from Suc.IH [OF this, of "arr @ [rest_note c v]"] obtain k where
      k: "rest_while d v c (arr @ [rest_note c v]) (rem - d)
            = Some ((arr @ [rest_note c v]) @ replicate k (rest_note c v), rem - d - real k * d)"
         "rem - d - real k * d < d - 1/1000"
         "0 < k \<longrightarrow> - (1/1000) \<le> rem - d - real k * d"
      by blast
    have eq: "rem - d - real k * d = rem - real (Suc k) * d" by (simp add: algebra_simps)
    have "rest_while d v c arr rem
            = Some (arr @ replicate (Suc k) (rest_note c v), rem - real (Suc k) * d)"
      using True k(1) by (subst rest_while.simps) (simp add: eq replicate_append_same)
    moreover have "rem - real (Suc k) * d < d - 1/1000" using k(2) eq by simp
    moreover have "- (1/1000) \<le> rem - real (Suc k) * d"
    proof (cases "0 < k")
      case True
      with k(3) eq show ?thesis by simp
    next
      case False
      with \<open>d - 1/1000 \<le> rem\<close> show ?thesis by simp
    qed
    ultimately show ?thesis by (intro exI [of _ "Suc k"]) simp
  qed
qed

lemma rest_while_step:
  assumes d: "1/1000 < d"
  obtains k where
    "rest_while d v c arr rem = Some (arr @ replicate k (rest_note c v), rem - real k * d)"
    "rem - real k * d < d - 1/1000"
    "- (1/1000) \<le> rem \<Longrightarrow> - (1/1000) \<le> rem - real k * d"
    "rem < 2 * d - 1/1000 \<Longrightarrow> k \<le> 1"
proof -
  from d have "0 < d" by simp
  obtain n :: nat where "rem / d < real n" using reals_Archimedean2 by blast
  with \<open>0 < d\<close> have "rem < real n * d" by (simp add: pos_divide_less_eq)
  from rest_while_bounded [OF d this, of v c arr] obtain k where
    k: "rest_while d v c arr rem = Some (arr @ replicate k (rest_note c v), rem - real k * d)"
       "rem - real k * d < d - 1/1000"
       "0 < k \<longrightarrow> - (1/1000) \<le> rem - real k * d"
    by blast
  have low: "- (1/1000) \<le> rem - real k * d" if "- (1/1000) \<le> rem"
    using that k(3) by (cases "0 < k") simp_all
  have one: "k \<le> 1" if "rem < 2 * d - 1/1000"
  proof (rule ccontr)
    assume "\<not> k \<le> 1"
    then have "2 \<le> real k" by simp
    then have "2 * d \<le> real k * d" using \<open>0 < d\<close> by (simp add: mult_right_mono)
    moreover from \<open>\<not> k \<le> 1\<close> k(3) have "- (1/1000) \<le> rem - real k * d" by simp
    ultimately show False using that by linarith
  qed
  from k(1,2) low one show ?thesis by (rule that)
qed

lemma event_beats_rest:
  "event_beats (rest_note c ''w'') = 4" "event_beats (rest_note c ''h'') = 2"
  "event_beats (rest_note c ''q'') = 1" "event_beats (rest_note c ''8'') = 1/2"
  "event_beats (rest_note c ''16'') = 1/4"
  by (simp_all add: event_beats_def rest_note_def strip_r_def REST_DURATIONS_def)

lemma is_rest_event_rest: "is_rest_event (rest_note c v)"
  by (simp add: is_rest_event_def rest_note_def)

lemma sum_list_replicate_real: "sum_list (replicate k (x::real)) = real k * x"
  by (induction k) (simp_all add: algebra_simps)

lemma rests_of_beats:
  "sum_list (map event_beats (rests_of c kw kh kq ke ks))
     = real kw * 4 + real kh * 2 + real kq * 1 + real ke * (1/2) + real ks * (1/4)"
  by (simp add: rests_of_def event_beats_rest sum_list_replicate_real)

lemma rest_for_result:
  "\<exists>kw kh kq ke ks.
      rest_for REST_DURATIONS c arr rem
        = Some (arr @ rests_of c kw kh kq ke ks,
                rem - sum_list (map event_beats (rests_of c kw kh kq ke ks)))
      \<and> kh \<le> 1 \<and> kq \<le> 1 \<and> ke \<le> 1 \<and> ks \<le> 1
      \<and> rem - sum_list (map event_beats (rests_of c kw kh kq ke ks)) < 1/4 - 1/1000
      \<and> (- (1/1000) \<le> rem \<longrightarrow>
            - (1/1000) \<le> rem - sum_list (map event_beats (rests_of c kw kh kq ke ks)))"
proof -
  obtain kw where w: "rest_while 4 ''w'' c arr rem
        = Some (arr @ replicate kw (rest_note c ''w''), rem - real kw * 4)"
      "rem - real kw * 4 < 4 - 1/1000"
      "- (1/1000) \<le> rem \<Longrightarrow> - (1/1000) \<le> rem - real kw * 4"
    by (rule rest_while_step [of 4 "''w''" c arr rem]) simp_all
  let ?r1 = "rem - real kw * 4" and ?a1 = "arr @ replicate kw (rest_note c ''w'')"
  obtain kh where h: "rest_while 2 ''h'' c ?a1 ?r1
        = Some (?a1 @ replicate kh (rest_note c ''h''), ?r1 - real kh * 2)"
      "?r1 - real kh * 2 < 2 - 1/1000"
      "- (1/1000) \<le> ?r1 \<Longrightarrow> - (1/1000) \<le> ?r1 - real kh * 2"
      "?r1 < 2 * 2 - 1/1000 \<Longrightarrow> kh \<le> 1"
    by (rule rest_while_step [of 2 "''h''" c ?a1 ?r1]) simp_all
  let ?r2 = "?r1 - real kh * 2" and ?a2 = "?a1 @ replicate kh (rest_note c ''h'')"
  obtain kq where q: "rest_while 1 ''q'' c ?a2 ?r2
        = Some (?a2 @ replicate kq (rest_note c ''q''), ?r2 - real kq * 1)"
      "?r2 - real kq * 1 < 1 - 1/1000"
      "- (1/1000) \<le> ?r2 \<Longrightarrow> - (1/1000) \<le> ?r2 - real kq * 1"
      "?r2 < 2 * 1 - 1/1000 \<Longrightarrow> kq \<le> 1"
    by (rule rest_while_step [of 1 "''q''" c ?a2 ?r2]) simp_all
  let ?r3 = "?r2 - real kq * 1" and ?a3 = "?a2 @ replicate kq (rest_note c ''q'')"
  obtain ke where e: "rest_while (1/2) ''8'' c ?a3 ?r3
        = Some (?a3 @ replicate ke (rest_note c ''8''), ?r3 - real ke * (1/2))"
      "?r3 - real ke * (1/2) < 1/2 - 1/1000"
      "- (1/1000) \<le> ?r3 \<Longrightarrow> - (1/1000) \<le> ?r3 - real ke * (1/2)"
      "?r3 < 2 * (1/2) - 1/1000 \<Longrightarrow> ke \<le> 1"
    by (rule rest_while_step [of "1/2" "''8''" c ?a3 ?r3]) simp_all
  let ?r4 = "?r3 - real ke * (1/2)" and ?a4 = "?a3 @ replicate ke (rest_note c ''8'')"
  obtain ks where s: "rest_while (1/4) ''16'' c ?a4 ?r4
        = Some (?a4 @ replicate ks (rest_note c ''16''), ?r4 - real ks * (1/4))"
      "?r4 - real ks * (1/4) < 1/4 - 1/1000"
      "- (1/1000) \<le> ?r4 \<Longrightarrow> - (1/1000) \<le> ?r4 - real ks * (1/4)"
      "?r4 < 2 * (1/4) - 1/1000 \<Longrightarrow> ks \<le> 1"
    by (rule rest_while_step [of "1/4" "''16''" c ?a4 ?r4]) simp_all
  have res: "rem - sum_list (map event_beats (rests_of c kw kh kq ke ks))
      = ?r4 - real ks * (1/4)"
    by (simp add: rests_of_beats)
  have run: "rest_for REST_DURATIONS c arr rem
      = Some (arr @ rests_of c kw kh kq ke ks, ?r4 - real ks * (1/4))"
    by (simp only: REST_DURATIONS_def rest_for.simps w(1) h(1) q(1) e(1) s(1) option.case
        prod.case) (simp add: rests_of_def)
  have kh: "kh \<le> 1" using h(4) w(2) by simp
  have kq: "kq \<le> 1" using q(4) h(2) by simp
  have ke: "ke \<le> 1" using e(4) q(2) by simp
  have ks: "ks \<le> 1" using s(4) e(2) by simp
  have low: "- (1/1000) \<le> ?r4 - real ks * (1/4)" if "- (1/1000) \<le> rem"
    using that w(3) h(3) q(3) e(3) s(3) by blast
  show ?thesis
    using run kh kq ke ks s(2) low unfolding res [symmetric] by blast
qed

lemma quarter_multiple_residual:
  fixes n N :: nat
  assumes "- (1/1000) \<le> real n / 4 - real N / 4" "real n / 4 - real N / 4 < 1/4 - 1/1000"
  shows "n = N"
proof -
  from assms(1) have "real N < real (n + 1)" by simp
  then have "N < n + 1" by (simp only: of_nat_less_iff)
  moreover from assms(2) have "real n < real (N + 1)" by simp
  then have "n < N + 1" by (simp only: of_nat_less_iff)
  ultimately show ?thesis by simp
qed




subsection \<open>Completing a measure\<close>

lemma duration_beats_cases:
  "duration_beats d = 4 \<or> duration_beats d = 2 \<or> duration_beats d = 1
     \<or> duration_beats d = 1/2 \<or> duration_beats d = 1/4"
  by (simp add: duration_beats_def)

lemma duration_beats_quarters: "\<exists>j::nat. duration_beats d = real j / 4"
proof -
  have "duration_beats d = real 16 / 4 \<or> duration_beats d = real 8 / 4
      \<or> duration_beats d = real 4 / 4 \<or> duration_beats d = real 2 / 4
      \<or> duration_beats d = real 1 / 4"
    using duration_beats_cases [of d] by simp
  then show ?thesis by blast
qed

lemma vex_or_q_val:
  "d \<notin> set object_prototype_keys \<Longrightarrow>
     \<exists>v. vex_or_q d = Val v \<and> v \<in> {''w'', ''h'', ''q'', ''8'', ''16''}
       \<and> map_of (map (\<lambda>(b, v). (v, b)) REST_DURATIONS) v = Some (duration_beats d)"
  by (simp add: vex_or_q_def DUR_TO_VEX_def REST_DURATIONS_def duration_beats_def)

lemma note_event:
  assumes "d \<notin> set object_prototype_keys"
  shows "event_beats (if r then (case vex_or_q d of
                                   Val v \<Rightarrow> rest_note c v
                                 | Inherited \<Rightarrow> (rest_note c [])\<lparr>sn_duration := Inherited\<rparr>)
                      else \<lparr>sn_clef = c, sn_keys = ks, sn_duration = vex_or_q d,
                            sn_auto_stem = True, sn_accidental = a, sn_ensembleId = i\<rparr>)
           = duration_beats d"
    and "is_rest_event (if r then (case vex_or_q d of
                                   Val v \<Rightarrow> rest_note c v
                                 | Inherited \<Rightarrow> (rest_note c [])\<lparr>sn_duration := Inherited\<rparr>)
                      else \<lparr>sn_clef = c, sn_keys = ks, sn_duration = vex_or_q d,
                            sn_auto_stem = True, sn_accidental = a, sn_ensembleId = i\<rparr>)
           \<longleftrightarrow> r"
proof -
  from vex_or_q_val [OF assms] obtain v where
    v: "vex_or_q d = Val v" "v \<in> {''w'', ''h'', ''q'', ''8'', ''16''}"
       "map_of (map (\<lambda>(b, v). (v, b)) REST_DURATIONS) v = Some (duration_beats d)"
    by blast
  from v(2) have s: "strip_r v = v" "strip_r (v @ ''r'') = v" "v \<noteq> [] \<and> last v \<noteq> CHR ''r''"
    by (auto simp: strip_r_def)
  show "event_beats (if r then (case vex_or_q d of
                                   Val v \<Rightarrow> rest_note c v
                                 | Inherited \<Rightarrow> (rest_note c [])\<lparr>sn_duration := Inherited\<rparr>)
                      else \<lparr>sn_clef = c, sn_keys = ks, sn_duration = vex_or_q d,
                            sn_auto_stem = True, sn_accidental = a, sn_ensembleId = i\<rparr>)
           = duration_beats d"
    by (simp add: v(1) event_beats_def rest_note_def s v(3))
  show "is_rest_event (if r then (case vex_or_q d of
                                   Val v \<Rightarrow> rest_note c v
                                 | Inherited \<Rightarrow> (rest_note c [])\<lparr>sn_duration := Inherited\<rparr>)
                      else \<lparr>sn_clef = c, sn_keys = ks, sn_duration = vex_or_q d,
                            sn_auto_stem = True, sn_accidental = a, sn_ensembleId = i\<rparr>)
           \<longleftrightarrow> r"
    using s(3) by (simp add: v(1) is_rest_event_def rest_note_def)
qed

lemma on_grid_diff:
  assumes "on_grid a" "on_grid b" "a \<le> b"
  shows "\<exists>n::nat. b - a = real n / 4"
proof -
  from assms obtain i j :: nat where ij: "a = 1 + real i / 4" "b = 1 + real j / 4"
    by (auto simp: on_grid_def)
  with assms(3) have "i \<le> j" by simp
  then have "b - a = real (j - i) / 4" by (simp add: ij of_nat_diff diff_divide_distrib)
  then show ?thesis by blast
qed

lemma on_grid_close:
  assumes "on_grid a" "on_grid b" "a \<le> b" "\<not> a + 1/1000 < b"
  shows "b = a"
proof -
  from assms obtain i j :: nat where ij: "a = 1 + real i / 4" "b = 1 + real j / 4"
    by (auto simp: on_grid_def)
  from assms(3) have "i \<le> j" by (simp add: ij)
  moreover from assms(4) have "real j < real (i + 1)" by (simp add: ij)
  then have "j < i + 1" by (simp only: of_nat_less_iff)
  ultimately show ?thesis by (simp add: ij)
qed

lemma on_grid_add: "on_grid a \<Longrightarrow> on_grid (a + duration_beats d)"
proof -
  assume "on_grid a"
  then obtain i :: nat where i: "a = 1 + real i / 4" by (auto simp: on_grid_def)
  from duration_beats_quarters obtain j :: nat where j: "duration_beats d = real j / 4" by blast
  have "a + duration_beats d = 1 + real (i + j) / 4" by (simp add: i j add_divide_distrib)
  then show ?thesis unfolding on_grid_def by blast
qed

lemma pushRests_grid:
  "\<exists>rs. pushRests arr (real n / 4) clef = Some (arr @ rs)
     \<and> sum_list (map event_beats rs) = real n / 4 \<and> (\<forall>r\<in>set rs. is_rest_event r)"
proof -
  from rest_for_result [of clef arr "real n / 4"] obtain kw kh kq ke ks where
    r: "rest_for REST_DURATIONS clef arr (real n / 4)
        = Some (arr @ rests_of clef kw kh kq ke ks,
                real n / 4 - sum_list (map event_beats (rests_of clef kw kh kq ke ks)))"
      "real n / 4 - sum_list (map event_beats (rests_of clef kw kh kq ke ks)) < 1/4 - 1/1000"
      "- (1/1000) \<le> real n / 4 \<longrightarrow>
         - (1/1000) \<le> real n / 4 - sum_list (map event_beats (rests_of clef kw kh kq ke ks))"
    by blast
  define N where "N = 16 * kw + 8 * kh + 4 * kq + 2 * ke + ks"
  have S: "sum_list (map event_beats (rests_of clef kw kh kq ke ks)) = real N / 4"
    by (simp add: rests_of_beats N_def)
  have "- (1/1000) \<le> real n / 4 - real N / 4" using r(3) unfolding S by simp
  moreover have "real n / 4 - real N / 4 < 1/4 - 1/1000" using r(2) unfolding S .
  ultimately have "n = N" by (rule quarter_multiple_residual)
  then have "sum_list (map event_beats (rests_of clef kw kh kq ke ks)) = real n / 4"
    by (simp add: S)
  moreover have "pushRests arr (real n / 4) clef = Some (arr @ rests_of clef kw kh kq ke ks)"
    by (simp add: pushRests_def r(1))
  moreover have "\<forall>r\<in>set (rests_of clef kw kh kq ke ks). is_rest_event r"
    by (auto simp: rests_of_def is_rest_event_rest)
  ultimately show ?thesis by blast
qed

lemma spans_overlap_sym:
  "spans_overlap (n_beat n) (duration_beats (n_duration n)) m
     \<longleftrightarrow> spans_overlap (n_beat m) (duration_beats (n_duration m)) n"
  by (auto simp: spans_overlap_def)

lemma non_overlapping_insort:
  "non_overlapping (insort_key f x xs) = non_overlapping (x # xs)"
proof (induction xs)
  case Nil
  show ?case by simp
next
  case (Cons y ys)
  show ?case
  proof (cases "f x \<le> f y")
    case True
    then show ?thesis by simp
  next
    case False
    then show ?thesis
      using Cons.IH spans_overlap_sym [of x y] by (auto simp: set_insort_key)
  qed
qed

lemma non_overlapping_sort: "non_overlapping (sort_key f xs) = non_overlapping xs"
  by (induction xs) (simp_all add: non_overlapping_insort)

lemma measure_loop_grid:
  assumes "sorted (map n_beat ns)" "non_overlapping ns"
    "\<forall>n\<in>set ns. n_duration n \<notin> set object_prototype_keys \<and> on_grid (n_beat n)
        \<and> cursor \<le> n_beat n \<and> n_beat n + duration_beats (n_duration n) \<le> B + 1"
    "on_grid cursor" "cursor \<le> B + 1"
  shows "\<exists>evs cursor'. measure_loop clef km ns arr (Val cursor) = Some (arr @ evs, Val cursor')
      \<and> sum_list (map event_beats evs) = cursor' - cursor
      \<and> on_grid cursor' \<and> cursor' \<le> B + 1
      \<and> map sn_ensembleId (filter (\<lambda>e. \<not> is_rest_event e) evs) = note_ids ns"
  using assms
proof (induction ns arbitrary: arr cursor)
  case Nil
  then show ?case by (simp add: note_ids_def)
next
  case (Cons n ns)
  let ?b = "duration_beats (n_duration n)"
  let ?sn = "(if n_is_rest n
              then (case vex_or_q (n_duration n) of
                      Val v \<Rightarrow> rest_note clef v
                    | Inherited \<Rightarrow> (rest_note clef [])\<lparr>sn_duration := Inherited\<rparr>)
              else \<lparr>sn_clef = clef, sn_keys = [pitchToVexKey (n_pitch n)],
                    sn_duration = vex_or_q (n_duration n), sn_auto_stem = True,
                    sn_accidental = displayAccidental (n_pitch n) km,
                    sn_ensembleId = Some (n_id n)\<rparr>)"
  from Cons.prems(3) have n: "on_grid (n_beat n)" "cursor \<le> n_beat n" "n_beat n + ?b \<le> B + 1"
    and nk: "n_duration n \<notin> set object_prototype_keys"
    by simp_all
  have gap: "\<exists>rs. (if n_beat n > cursor + 1/1000
                   then map_option (\<lambda>arr. (arr, Val (n_beat n)))
                          (pushRests arr (n_beat n - cursor) clef)
                   else Some (arr, Val cursor)) = Some (arr @ rs, Val (n_beat n))
               \<and> sum_list (map event_beats rs) = n_beat n - cursor
               \<and> (\<forall>r\<in>set rs. is_rest_event r)"
  proof (cases "n_beat n > cursor + 1/1000")
    case True
    from on_grid_diff [OF Cons.prems(4) n(1) n(2)] obtain k :: nat
      where k: "n_beat n - cursor = real k / 4" by blast
    from pushRests_grid [of arr k clef] obtain rs where
      "pushRests arr (n_beat n - cursor) clef = Some (arr @ rs)"
      "sum_list (map event_beats rs) = n_beat n - cursor" "\<forall>r\<in>set rs. is_rest_event r"
      unfolding k [symmetric] by blast
    with True show ?thesis by (intro exI [of _ rs]) simp
  next
    case False
    from on_grid_close [OF Cons.prems(4) n(1) n(2)] False have "n_beat n = cursor" by simp
    with False show ?thesis by (intro exI [of _ "[]"]) simp
  qed
  then obtain rs where rs:
    "(if n_beat n > cursor + 1/1000
      then map_option (\<lambda>arr. (arr, Val (n_beat n))) (pushRests arr (n_beat n - cursor) clef)
      else Some (arr, Val cursor)) = Some (arr @ rs, Val (n_beat n))"
    "sum_list (map event_beats rs) = n_beat n - cursor" "\<forall>r\<in>set rs. is_rest_event r"
    by blast
  have adv: "js_add (Val (n_beat n)) (beats_or 1 (n_duration n)) = Val (n_beat n + ?b)"
    by (simp add: beats_or_1_val [OF nk] js_add_def)
  have step: "measure_loop clef km (n # ns) arr (Val cursor)
      = measure_loop clef km ns ((arr @ rs) @ [?sn]) (Val (n_beat n + ?b))"
    by (simp only: measure_loop.simps js.case rs(1) option.case prod.case Let_def adv)
  have srt: "sorted (map n_beat ns)" using Cons.prems(1) by simp
  have nov: "non_overlapping ns" using Cons.prems(2) by simp
  have nxt: "\<forall>m\<in>set ns. n_duration m \<notin> set object_prototype_keys \<and> on_grid (n_beat m)
        \<and> n_beat n + ?b \<le> n_beat m
        \<and> n_beat m + duration_beats (n_duration m) \<le> B + 1"
  proof
    fix m assume m: "m \<in> set ns"
    with Cons.prems(1) have le: "n_beat n \<le> n_beat m" by auto
    from m Cons.prems(2) have "\<not> spans_overlap (n_beat n) ?b m" by simp
    with le duration_beats_pos [of "n_duration m"] have "n_beat n + ?b \<le> n_beat m"
      by (simp add: spans_overlap_def)
    with m Cons.prems(3) show "n_duration m \<notin> set object_prototype_keys \<and> on_grid (n_beat m)
        \<and> n_beat n + ?b \<le> n_beat m
        \<and> n_beat m + duration_beats (n_duration m) \<le> B + 1" by simp
  qed
  from Cons.IH [OF srt nov nxt on_grid_add [OF n(1)] n(3), of "(arr @ rs) @ [?sn]"]
  obtain evs cursor' where ih:
    "measure_loop clef km ns ((arr @ rs) @ [?sn]) (Val (n_beat n + ?b))
       = Some (((arr @ rs) @ [?sn]) @ evs, Val cursor')"
    "sum_list (map event_beats evs) = cursor' - (n_beat n + ?b)"
    "on_grid cursor'" "cursor' \<le> B + 1"
    "map sn_ensembleId (filter (\<lambda>e. \<not> is_rest_event e) evs) = note_ids ns"
    by blast
  have sn_beats: "event_beats ?sn = ?b" by (rule note_event(1) [OF nk])
  have sn_rest: "is_rest_event ?sn \<longleftrightarrow> n_is_rest n" by (rule note_event(2) [OF nk])
  have sn_ids: "map sn_ensembleId (filter (\<lambda>e. \<not> is_rest_event e) [?sn]) = note_ids [n]"
    unfolding filter.simps sn_rest by (simp add: note_ids_def)
  have rs_ids: "filter (\<lambda>e. \<not> is_rest_event e) rs = []"
    using rs(3) by (simp add: filter_empty_conv)
  have ids: "note_ids (n # ns) = note_ids [n] @ note_ids ns"
    by (simp add: note_ids_def)
  have 1: "measure_loop clef km (n # ns) arr (Val cursor) = Some (arr @ (rs @ [?sn] @ evs), Val cursor')"
    unfolding step ih(1) by simp
  have 2: "sum_list (map event_beats (rs @ [?sn] @ evs)) = cursor' - cursor"
    using rs(2) ih(2) sn_beats by simp
  have 3: "map sn_ensembleId (filter (\<lambda>e. \<not> is_rest_event e) (rs @ [?sn] @ evs)) = note_ids (n # ns)"
    unfolding ids filter_append map_append rs_ids sn_ids ih(5) by simp
  from 1 2 3 ih(3,4) show ?case by blast
qed

lemma on_grid_measure_end: "on_grid 1" "on_grid (real B + 1)"
proof -
  have "(1::real) = 1 + real 0 / 4" by simp
  then show "on_grid 1" unfolding on_grid_def by blast
  have "real B + 1 = 1 + real (4 * B) / 4" by simp
  then show "on_grid (real B + 1)" unfolding on_grid_def by blast
qed

text \<open>
  Claim C1, as the code has it. Let the beats per measure be a natural number \<open>B\<close>, and
  let the notes of one instrument and measure have durations with a beat count (names
  that are not properties inherited by the duration tables), start on the sixteenth
  grid (beat \<open>1 + k/4\<close>), end within the measure (\<open>beat + beats \<le> B + 1\<close>) and have
  spans that do not overlap; their beat counts then sum to at most \<open>B\<close>. Then
  \<open>buildMeasureNotes\<close> returns a sequence of events whose beat counts sum to exactly
  \<open>B\<close>, in which the events that are not rests are the input notes that are not rests,
  in ascending beat order.
\<close>

theorem buildMeasureNotes_fills:
  assumes "\<forall>n\<in>set ns. n_duration n \<notin> set object_prototype_keys \<and> on_grid (n_beat n)
             \<and> n_beat n + duration_beats (n_duration n) \<le> real B + 1"
    and "non_overlapping ns"
  shows "\<exists>evs. buildMeasureNotes ns clef km (real B) = Some evs
           \<and> sum_list (map event_beats evs) = real B
           \<and> map sn_ensembleId (filter (\<lambda>e. \<not> is_rest_event e) evs)
               = note_ids (sort_key n_beat ns)"
proof -
  let ?s = "sort_key n_beat ns"
  have srt: "sorted (map n_beat ?s)" by (rule sorted_sort_key)
  have nov: "non_overlapping ?s" using assms(2) by (simp add: non_overlapping_sort)
  have one: "1 \<le> n_beat n" if "on_grid (n_beat n)" for n
    using that by (auto simp: on_grid_def)
  have all: "\<forall>n\<in>set ?s. n_duration n \<notin> set object_prototype_keys \<and> on_grid (n_beat n)
        \<and> 1 \<le> n_beat n \<and> n_beat n + duration_beats (n_duration n) \<le> real B + 1"
    using assms(1) one by auto
  from measure_loop_grid [OF srt nov all on_grid_measure_end(1), of clef km "[]"]
  obtain evs cursor where l:
    "measure_loop clef km ?s [] (Val 1) = Some ([] @ evs, Val cursor)"
    "sum_list (map event_beats evs) = cursor - 1"
    "on_grid cursor" "cursor \<le> real B + 1"
    "map sn_ensembleId (filter (\<lambda>e. \<not> is_rest_event e) evs) = note_ids ?s"
    by auto
  show ?thesis
  proof (cases "real B - cursor + 1 > 1/1000")
    case True
    from on_grid_diff [OF l(3) on_grid_measure_end(2) l(4)] obtain k :: nat
      where k: "real B + 1 - cursor = real k / 4" by blast
    then have k': "real B - cursor + 1 = real k / 4" by simp
    from pushRests_grid [of evs k clef] obtain rs where rs:
      "pushRests evs (real B - cursor + 1) clef = Some (evs @ rs)"
      "sum_list (map event_beats rs) = real B - cursor + 1" "\<forall>r\<in>set rs. is_rest_event r"
      unfolding k' [symmetric] by blast
    have "buildMeasureNotes ns clef km (real B) = Some (evs @ rs)"
      using True by (simp add: buildMeasureNotes_def l(1) rs(1))
    moreover have "sum_list (map event_beats (evs @ rs)) = real B"
      using l(2) rs(2) by simp
    moreover have "filter (\<lambda>e. \<not> is_rest_event e) rs = []"
      using rs(3) by (simp add: filter_empty_conv)
    then have "map sn_ensembleId (filter (\<lambda>e. \<not> is_rest_event e) (evs @ rs)) = note_ids ?s"
      using l(5) by simp
    ultimately show ?thesis by blast
  next
    case False
    have "\<not> cursor + 1/1000 < real B + 1" using False by simp
    from on_grid_close [OF l(3) on_grid_measure_end(2) l(4) this]
    have c: "cursor = real B + 1" by simp
    have "buildMeasureNotes ns clef km (real B) = Some evs"
      using False by (simp add: buildMeasureNotes_def l(1))
    moreover have "sum_list (map event_beats evs) = real B" using l(2) c by simp
    ultimately show ?thesis using l(5) by blast
  qed
qed

lemma on_grid_quarters: "on_grid (1 + real k / 4)"
  unfolding on_grid_def by blast

theorem buildMeasureNotes_fills_witness:
  "\<exists>evs. buildMeasureNotes [note_at ''n2'' ''A4'' 3 ''quarter'' ''s1'', note_at ''n1'' ''D5'' 1 ''half'' ''s1'']
             ''treble'' (getKeyAccidentals ''D'') (real 4) = Some evs
     \<and> sum_list (map event_beats evs) = real 4
     \<and> map sn_ensembleId (filter (\<lambda>e. \<not> is_rest_event e) evs) = [Some ''n1'', Some ''n2'']"
proof -
  let ?ns = "[note_at ''n2'' ''A4'' 3 ''quarter'' ''s1'', note_at ''n1'' ''D5'' 1 ''half'' ''s1'']"
  have g: "on_grid 3" "on_grid 1"
    using on_grid_quarters [of 8] on_grid_quarters [of 0] by simp_all
  have a: "\<forall>n\<in>set ?ns. n_duration n \<notin> set object_prototype_keys \<and> on_grid (n_beat n)
             \<and> n_beat n + duration_beats (n_duration n) \<le> real 4 + 1"
    by (simp add: note_at_def g duration_beats_def object_prototype_keys_def)
  have b: "non_overlapping ?ns"
    by (simp add: note_at_def spans_overlap_def duration_beats_def)
  have s: "note_ids (sort_key n_beat ?ns) = [Some ''n1'', Some ''n2'']"
    by (simp add: note_ids_def note_at_def)
  from buildMeasureNotes_fills [OF a b, of "''treble''" "getKeyAccidentals ''D''"]
  show ?thesis unfolding s .
qed

lemma pushRests_run:
  "pushRests [] 2 ''treble'' = Some [rest_note ''treble'' ''h'']"
  "pushRests [] (1/10) ''treble'' = Some []"
  "pushRests [x] (29/10) ''treble''
     = Some [x, rest_note ''treble'' ''h'', rest_note ''treble'' ''8'', rest_note ''treble'' ''16'']"
  by (simp_all add: pushRests_def REST_DURATIONS_def rest_while.simps)

text \<open>
  Without these conditions the claim fails in a 4-beat measure: a whole note at beat 3
  (beat counts sum to 4, no overlap) gives events of 2 + 4 = 6 beats, and a quarter
  note at beat 1.1 gives events of 3.75 beats.
\<close>

theorem buildMeasureNotes_counterexample:
  "beat_sum [note_at ''n1'' ''D5'' 3 ''whole'' ''s1''] \<le> 4
   \<and> non_overlapping [note_at ''n1'' ''D5'' 3 ''whole'' ''s1'']
   \<and> map_option (map event_beats)
        (buildMeasureNotes [note_at ''n1'' ''D5'' 3 ''whole'' ''s1''] ''treble''
           (getKeyAccidentals ''D'') 4) = Some [2, 4]
   \<and> beat_sum [note_at ''n1'' ''D5'' (11/10) ''quarter'' ''s1''] \<le> 4
   \<and> non_overlapping [note_at ''n1'' ''D5'' (11/10) ''quarter'' ''s1'']
   \<and> map_option (map event_beats)
        (buildMeasureNotes [note_at ''n1'' ''D5'' (11/10) ''quarter'' ''s1''] ''treble''
           (getKeyAccidentals ''D'') 4) = Some [1, 2, 1/2, 1/4]"
  by (simp add: buildMeasureNotes_def pushRests_run note_at_def beat_sum_def duration_beats_def
      beats_or_def DUR_TO_BEATS_def vex_or_q_def DUR_TO_VEX_def event_beats_def strip_r_def
      REST_DURATIONS_def rest_note_def js_add_def)

end
